theory Spec2Isabelle
  imports Complex_Main "HOL-Library.Log_Nat"
begin

section \<open>csv2aba: the ABA record encoder of \<open>tools/csv2aba/scripts.js\<close>\<close>

text \<open>
  The development embeds the three record generators and the document assembler of
  \<open>scripts.js\<close> (\<open>generate_descriptive_record\<close>, \<open>generate_detail_record\<close>,
  \<open>generate_file_total_record\<close>, \<open>processCsvToAba\<close>) together with the parts of the
  JavaScript library they call.

  \<^item> A JavaScript string is a \<^typ>\<open>string\<close>: a list of code units, here restricted to the
    range \<open>0..255\<close> of \<^typ>\<open>char\<close>.
  \<^item> A JavaScript Number is a \<open>jsnum\<close>: \<open>NaN\<close>, the two infinities, or a finite
    IEEE-754 binary64 value carried as the rational it denotes. The two zeros are one value
    \<open>Num 0\<close>: the program only adds, multiplies, rounds and prints numbers, and
    \<open>String\<close> prints both zeros as \<open>0\<close>.
  \<^item> A \<open>throw new Error(...)\<close> is the left summand of \<open>error + 'a\<close>.
\<close>

subsection \<open>Strings\<close>

text \<open>\<open>String.prototype.repeat\<close> on a one-character string.\<close>

definition repeat :: "char \<Rightarrow> nat \<Rightarrow> string" where
  "repeat c n = replicate n c"

text \<open>\<open>padStart\<close> and \<open>padEnd\<close> with a one-character filler: a string that is already
  long enough is returned unchanged (never truncated).\<close>

definition padStart :: "nat \<Rightarrow> char \<Rightarrow> string \<Rightarrow> string" where
  "padStart n c s = (if n \<le> length s then s else replicate (n - length s) c @ s)"

definition padEnd :: "nat \<Rightarrow> char \<Rightarrow> string \<Rightarrow> string" where
  "padEnd n c s = (if n \<le> length s then s else s @ replicate (n - length s) c)"

text \<open>The white space and line terminators that \<open>trim\<close> strips, among the code units
  \<open>0..255\<close>: TAB, LF, VT, FF, CR, SPACE and NBSP.\<close>

definition js_whitespace :: "char \<Rightarrow> bool" where
  "js_whitespace c = (of_char c \<in> {9, 10, 11, 12, 13, 32, 160 :: nat})"

definition trimStart :: "string \<Rightarrow> string" where
  "trimStart s = dropWhile js_whitespace s"

definition trim :: "string \<Rightarrow> string" where
  "trim s = rev (dropWhile js_whitespace (rev (dropWhile js_whitespace s)))"

text \<open>\<open>s.replace(c, '')\<close> with a string pattern of one character: only the first
  occurrence is removed.\<close>

definition replace_first :: "char \<Rightarrow> string \<Rightarrow> string" where
  "replace_first c s = remove1 c s"

text \<open>\<open>s.slice(-n)\<close>: the last \<open>n\<close> code units, the whole string when it is shorter.\<close>

definition slice_last :: "nat \<Rightarrow> string \<Rightarrow> string" where
  "slice_last n s = drop (length s - n) s"

text \<open>\<open>Array.prototype.join\<close> with a separator.\<close>

fun join :: "string \<Rightarrow> string list \<Rightarrow> string" where
  "join sep [] = []"
| "join sep [x] = x"
| "join sep (x # y # ys) = x @ sep @ join sep (y # ys)"

text \<open>The characters at the 1-based positions \<open>i+1 .. j\<close> of a record.\<close>

definition field :: "nat \<Rightarrow> nat \<Rightarrow> string \<Rightarrow> string" where
  "field i j s = take (j - i) (drop i s)"

subsection \<open>Decimal digits\<close>

definition digit_char :: "int \<Rightarrow> char" where
  "digit_char d = char_of (48 + d)"

text \<open>The decimal digits of a non-negative integer.\<close>

function show_digits :: "int \<Rightarrow> string" where
  "show_digits n = (if n < 10 then [digit_char n]
                    else show_digits (n div 10) @ [digit_char (n mod 10)])"
  by pat_completeness auto
termination
  by (relation "measure (\<lambda>n. nat n)") auto

declare show_digits.simps [simp del]

definition show_int :: "int \<Rightarrow> string" where
  "show_int i = (if i < 0 then CHR ''-'' # show_digits (- i) else show_digits i)"

definition is_digit :: "char \<Rightarrow> bool" where
  "is_digit c = (48 \<le> (of_char c :: int) \<and> (of_char c :: int) \<le> 57)"

definition digit_val :: "char \<Rightarrow> int" where
  "digit_val c = of_char c - 48"

definition digits_val :: "string \<Rightarrow> int" where
  "digits_val ds = foldl (\<lambda>n c. 10 * n + digit_val c) 0 ds"

subsection \<open>Numbers\<close>

datatype jsnum = NaN | PosInf | NegInf | Num rat

text \<open>\<open>digit_count b x\<close> is the number of base-\<open>b\<close> digits of a positive integer.\<close>

function digit_count :: "int \<Rightarrow> int \<Rightarrow> int" where
  "digit_count b x = (if 0 < x \<and> 1 < b then digit_count b (x div b) + 1 else 0)"
  by pat_completeness auto
termination
  by (relation "measure (\<lambda>(b, x). nat x)") (auto simp: int_div_less_self)

declare digit_count.simps [simp del]

text \<open>\<open>floor_log b q\<close> is the integer \<open>k\<close> with \<open>b ^ k \<le> q < b ^ (k + 1)\<close>, for \<open>q > 0\<close>;
  it is computed from the digit counts of the numerator and the denominator.\<close>

definition floor_log :: "int \<Rightarrow> rat \<Rightarrow> int" where
  "floor_log b q = (let (n, d) = quotient_of q;
                        k = digit_count b n - digit_count b d
                    in if of_int b powi k \<le> q then k else k - 1)"

definition round_half_even :: "rat \<Rightarrow> int" where
  "round_half_even q = (let f = \<lfloor>q\<rfloor>; r = q - of_int f
                        in if r < 1 / 2 then f
                           else if 1 / 2 < r then f + 1
                           else if even f then f else f + 1)"

text \<open>The Number value for a real: the nearest binary64 value, ties to the even
  significand. The spacing of the values around \<open>q\<close> is \<open>2 ^ e\<close>; below \<open>2 ^ -1022\<close> it
  stays \<open>2 ^ -1074\<close> (subnormals). A rounded value \<open>m * 2 ^ e\<close> that reaches \<open>2 ^ 1024\<close>,
  that is, whose leading bit is past position 1023, is infinity.\<close>

definition round_double :: "rat \<Rightarrow> jsnum" where
  "round_double q =
     (if q = 0 then Num 0
      else let e = max (floor_log 2 \<bar>q\<bar>) (- 1022) - 52;
               m = round_half_even (\<bar>q\<bar> / 2 powi e);
               v = of_int m * 2 powi e
           in if 1024 < digit_count 2 m + e then (if q < 0 then NegInf else PosInf)
              else Num (if q < 0 then - v else v))"

text \<open>\<open>Number::multiply\<close> and \<open>Number::add\<close>.\<close>

fun js_mul :: "jsnum \<Rightarrow> jsnum \<Rightarrow> jsnum" where
  "js_mul NaN y = NaN"
| "js_mul x NaN = NaN"
| "js_mul (Num a) (Num b) = round_double (a * b)"
| "js_mul (Num a) PosInf = (if a = 0 then NaN else if a < 0 then NegInf else PosInf)"
| "js_mul (Num a) NegInf = (if a = 0 then NaN else if a < 0 then PosInf else NegInf)"
| "js_mul PosInf (Num b) = (if b = 0 then NaN else if b < 0 then NegInf else PosInf)"
| "js_mul NegInf (Num b) = (if b = 0 then NaN else if b < 0 then PosInf else NegInf)"
| "js_mul PosInf PosInf = PosInf"
| "js_mul NegInf NegInf = PosInf"
| "js_mul PosInf NegInf = NegInf"
| "js_mul NegInf PosInf = NegInf"

fun js_add :: "jsnum \<Rightarrow> jsnum \<Rightarrow> jsnum" where
  "js_add NaN y = NaN"
| "js_add x NaN = NaN"
| "js_add (Num a) (Num b) = round_double (a + b)"
| "js_add PosInf NegInf = NaN"
| "js_add NegInf PosInf = NaN"
| "js_add PosInf y = PosInf"
| "js_add NegInf y = NegInf"
| "js_add x PosInf = PosInf"
| "js_add x NegInf = NegInf"

text \<open>\<open>Math.round\<close>: the nearest integer, a tie going up.\<close>

fun Math_round :: "jsnum \<Rightarrow> jsnum" where
  "Math_round (Num q) = Num (of_int \<lfloor>q + 1 / 2\<rfloor>)"
| "Math_round x = x"

subsection \<open>\<open>parseFloat\<close>\<close>

text \<open>
  \<open>parseFloat\<close> skips leading white space and reads the longest prefix that is a
  \<open>StrDecimalLiteral\<close>: an optional sign, then \<open>Infinity\<close> or decimal digits with an
  optional fraction and an optional exponent (taken only when it has digits). At least
  one digit is needed before or after the point; with no such prefix the result is
  \<open>NaN\<close>. Whatever follows the prefix is ignored.
\<close>

definition split_sign :: "string \<Rightarrow> bool \<times> string" where
  "split_sign s = (case s of
       [] \<Rightarrow> (False, s)
     | c # r \<Rightarrow> if c = CHR ''-'' then (True, r) else if c = CHR ''+'' then (False, r) else (False, s))"

definition exponent_part :: "string \<Rightarrow> int" where
  "exponent_part s = (case s of
       [] \<Rightarrow> 0
     | c # r \<Rightarrow>
        if c = CHR ''e'' \<or> c = CHR ''E''
        then (let (neg, u) = split_sign r; ds = takeWhile is_digit u
              in if ds = [] then 0
                 else if neg then - digits_val ds else digits_val ds)
        else 0)"

definition parseFloat :: "string \<Rightarrow> jsnum" where
  "parseFloat s =
     (let (neg, u) = split_sign (trimStart s)
      in if take 8 u = ''Infinity'' then (if neg then NegInf else PosInf)
         else let ip = takeWhile is_digit u;
                  r1 = dropWhile is_digit u;
                  has_point = (case r1 of [] \<Rightarrow> False | c # r \<Rightarrow> c = CHR ''.'');
                  fp = (if has_point then takeWhile is_digit (tl r1) else []);
                  r2 = (if has_point then dropWhile is_digit (tl r1) else r1)
              in if ip = [] \<and> fp = [] then NaN
                 else let mv = of_int (digits_val (ip @ fp))
                                 * 10 powi (exponent_part r2 - int (length fp))
                      in round_double (if neg then - mv else mv))"

subsection \<open>\<open>String(number)\<close>\<close>

text \<open>
  \<open>Number::toString\<close> prints a finite non-zero value from integers \<open>n\<close>, \<open>k\<close>, \<open>s\<close> with
  \<open>10 ^ (k - 1) \<le> s < 10 ^ k\<close>, where \<open>s * 10 ^ (n - k)\<close> rounds to the value and
  \<open>k\<close> is as small as possible; among several \<open>s\<close> the closest is taken, the even one on a
  tie. Seventeen digits always suffice for a binary64 value.
\<close>

definition digit_candidates :: "rat \<Rightarrow> nat \<Rightarrow> (int \<times> int) list" where
  "digit_candidates q k =
     (let n0 = floor_log 10 q + 1
      in [(n, s). n \<leftarrow> [n0, n0 + 1],
                  s \<leftarrow> [\<lfloor>q / 10 powi (n - int k)\<rfloor>, \<lfloor>q / 10 powi (n - int k)\<rfloor> + 1],
                  10 ^ (k - 1) \<le> s \<and> s < 10 ^ k
                  \<and> round_double (of_int s * 10 powi (n - int k)) = Num q])"

definition closer :: "rat \<Rightarrow> nat \<Rightarrow> int \<times> int \<Rightarrow> int \<times> int \<Rightarrow> int \<times> int" where
  "closer q k a b =
     (let da = \<bar>of_int (snd a) * 10 powi (fst a - int k) - q\<bar>;
          db = \<bar>of_int (snd b) * 10 powi (fst b - int k) - q\<bar>
      in if da < db then a else if db < da then b else if even (snd a) then a else b)"

fun shortest_digits :: "rat \<Rightarrow> nat list \<Rightarrow> int \<times> nat \<times> int" where
  "shortest_digits q [] = (floor_log 10 q + 1, 17, \<lfloor>q / 10 powi (floor_log 10 q + 1 - 17)\<rfloor>)"
| "shortest_digits q (k # ks) =
     (case digit_candidates q k of
        [] \<Rightarrow> shortest_digits q ks
      | c # cs \<Rightarrow> (let (n, s) = foldl (closer q k) c cs in (n, k, s)))"

definition format_digits :: "int \<times> nat \<times> int \<Rightarrow> string" where
  "format_digits nks =
     (let (n, k, s) = nks; ds = show_digits s
      in if int k \<le> n \<and> n \<le> 21 then ds @ replicate (nat (n - int k)) CHR ''0''
         else if 0 < n \<and> n \<le> 21 then take (nat n) ds @ ''.'' @ drop (nat n) ds
         else if - 6 < n \<and> n \<le> 0 then ''0.'' @ replicate (nat (- n)) CHR ''0'' @ ds
         else let ex = (if n - 1 < 0 then ''-'' else ''+'') @ show_digits \<bar>n - 1\<bar>
              in if k = 1 then ds @ ''e'' @ ex
                 else take 1 ds @ ''.'' @ drop 1 ds @ ''e'' @ ex)"

text \<open>An integer up to \<open>2 ^ 53\<close> is printed as its decimal digits (its shortest digit
  string is the decimal expansion itself); every other positive value goes through the
  digit search.\<close>

definition show_positive :: "rat \<Rightarrow> string" where
  "show_positive q =
     (if of_int \<lfloor>q\<rfloor> = q \<and> q \<le> 2 ^ 53 then show_digits \<lfloor>q\<rfloor>
      else format_digits (shortest_digits q [1 ..< 18]))"

fun js_String :: "jsnum \<Rightarrow> string" where
  "js_String NaN = ''NaN''"
| "js_String PosInf = ''Infinity''"
| "js_String NegInf = ''-Infinity''"
| "js_String (Num q) = (if q < 0 then CHR ''-'' # show_positive (- q) else show_positive q)"

subsection \<open>Constants and input\<close>

definition SPACE :: char where "SPACE = CHR '' ''"
definition ZERO :: char where "ZERO = CHR ''0''"
definition NEWLINE :: char where "NEWLINE = CHR 0x0A"
definition LINE_LENGTH :: nat where "LINE_LENGTH = 120"

text \<open>The set \<open>CSV_COLUMNS\<close>, in its iteration (insertion) order.\<close>

definition CSV_COLUMNS :: "string list" where
  "CSV_COLUMNS = [''BSB'', ''Reference'', ''Name'', ''Account'', ''Amount'']"

text \<open>A row object maps column names to strings; a property that is \<open>undefined\<close> or
  \<open>null\<close> is \<open>None\<close>.\<close>

type_synonym row = "string \<Rightarrow> string option"

text \<open>What \<open>new Date()\<close> reports through \<open>getDate\<close>, \<open>getMonth\<close> (counted from 0)
  and \<open>getFullYear\<close>.\<close>

record date =
  getDate :: int
  getMonth :: int
  getFullYear :: int

text \<open>The three \<open>throw new Error("Assertion failed: ... record length is n, ...")\<close>,
  each with the length it reports.\<close>

datatype error = Descriptive_length nat | Detail_length nat | Trailer_length nat

subsection \<open>Descriptive record (type 0)\<close>

definition generate_descriptive_record :: "date \<Rightarrow> error + string" where
  "generate_descriptive_record today =
     (let day = padStart 2 ZERO (show_int (getDate today));
          month = padStart 2 ZERO (show_int (getMonth today + 1));
          year = slice_last 2 (show_int (getFullYear today));
          processDate = day @ month @ year;
          descriptive_record = concat
            [''0'',
             repeat SPACE 17,
             ''01'',
             ''CBA'',
             repeat SPACE 7,
             padEnd 26 SPACE ''Meya'',
             padStart 6 ZERO ''00'',
             padEnd 12 SPACE ''PAYROLL'',
             processDate,
             repeat SPACE 40]
      in if length descriptive_record \<noteq> LINE_LENGTH
         then Inl (Descriptive_length (length descriptive_record))
         else Inr descriptive_record)"

subsection \<open>Detail record (type 1)\<close>

text \<open>The test of the validation loop on one column: the property is \<open>undefined\<close> or
  \<open>null\<close>, or it trims to the empty string.\<close>

definition blank :: "row \<Rightarrow> string \<Rightarrow> bool" where
  "blank row col = (case row col of None \<Rightarrow> True | Some v \<Rightarrow> trim v = [])"

text \<open>Reading a column after the validation loop, where it is known to hold a string.\<close>

definition column :: "row \<Rightarrow> string \<Rightarrow> string" where
  "column row col = (case row col of None \<Rightarrow> [] | Some v \<Rightarrow> v)"

text \<open>Lines 126 and 127: \<open>replace('$', '')\<close> and \<open>replace(',', '')\<close> each remove the first
  occurrence only; then \<open>Math.round(parseFloat(amountStr) * 100)\<close>.\<close>

definition amount_in_cents_of :: "string \<Rightarrow> jsnum" where
  "amount_in_cents_of amount =
     (let amountStr = trim (replace_first CHR '','' (replace_first CHR ''$'' amount))
      in Math_round (js_mul (parseFloat amountStr) (Num 100)))"

text \<open>The result is \<open>[null, null]\<close>, that is \<open>(None, None)\<close>, or the record with its
  amount, or the assertion's error.\<close>

definition generate_detail_record :: "row \<Rightarrow> error + (string option \<times> jsnum option)" where
  "generate_detail_record row =
     (if list_ex (blank row) CSV_COLUMNS then Inr (None, None)
      else let amount_in_cents = amount_in_cents_of (column row ''Amount'');
               bsb = trim (column row ''BSB'');
               account = trim (column row ''Account'');
               name = trim (column row ''Name'');
               reference = trim (column row ''Reference'');
               detail_record = concat
                 [''1'',
                  bsb,
                  padStart 9 SPACE account,
                  '' '',
                  ''53'',
                  padStart 10 ZERO (js_String amount_in_cents),
                  padEnd 32 SPACE name,
                  padEnd 18 SPACE reference,
                  bsb,
                  padStart 9 SPACE account,
                  padEnd 16 SPACE ''Meya'',
                  repeat ZERO 8]
           in if length detail_record \<noteq> LINE_LENGTH
              then Inl (Detail_length (length detail_record))
              else Inr (Some detail_record, Some amount_in_cents))"

subsection \<open>File total record (type 7)\<close>

text \<open>The count is the length of the array minus one (the descriptive record); an array
  length is an integer below \<open>2 ^ 32\<close>, which \<open>String\<close> prints in decimal.\<close>

definition generate_file_total_record :: "string list \<Rightarrow> jsnum \<Rightarrow> error + string" where
  "generate_file_total_record aba_content total_amount =
     (let detail_record_count = int (length aba_content) - 1;
          trailer_record = concat
            [''7'',
             ''999-999'',
             repeat SPACE 12,
             padStart 10 ZERO (js_String total_amount),
             padStart 10 ZERO (js_String total_amount),
             repeat ZERO 10,
             repeat SPACE 24,
             padStart 6 ZERO (show_int detail_record_count),
             repeat SPACE 40]
      in if length trailer_record \<noteq> LINE_LENGTH
         then Inl (Trailer_length (length trailer_record))
         else Inr trailer_record)"

subsection \<open>The document\<close>

text \<open>The loop of \<open>processCsvToAba\<close> over the rows, with the array and the running total
  as its state; an error thrown for a row ends the conversion.\<close>

fun process_rows :: "row list \<Rightarrow> string list \<Rightarrow> jsnum \<Rightarrow> error + (string list \<times> jsnum)" where
  "process_rows [] aba_content total_amount = Inr (aba_content, total_amount)"
| "process_rows (row # rows) aba_content total_amount =
     (case generate_detail_record row of
        Inl e \<Rightarrow> Inl e
      | Inr (Some detail_record, Some amount_in_cents) \<Rightarrow>
          process_rows rows (aba_content @ [detail_record]) (js_add total_amount amount_in_cents)
      | Inr _ \<Rightarrow> process_rows rows aba_content total_amount)"

text \<open>The array \<open>aba_content\<close> once the trailer is pushed (line 254).\<close>

definition aba_records :: "date \<Rightarrow> row list \<Rightarrow> error + string list" where
  "aba_records today csvData =
     (case generate_descriptive_record today of
        Inl e \<Rightarrow> Inl e
      | Inr descriptive_record \<Rightarrow>
         (case process_rows csvData [descriptive_record] (Num 0) of
            Inl e \<Rightarrow> Inl e
          | Inr (aba_content, total_amount) \<Rightarrow>
             (case generate_file_total_record aba_content total_amount of
                Inl e \<Rightarrow> Inl e
              | Inr trailer_record \<Rightarrow> Inr (aba_content @ [trailer_record]))))"

definition processCsvToAba :: "date \<Rightarrow> row list \<Rightarrow> error + string" where
  "processCsvToAba today csvData =
     (case aba_records today csvData of
        Inl e \<Rightarrow> Inl e
      | Inr aba_content \<Rightarrow> Inr (join [NEWLINE] aba_content @ [NEWLINE]))"

subsection \<open>Accepted rows\<close>

text \<open>The rows for which \<open>generate_detail_record\<close> returns a record and an amount, as
  the pairs returned, in input order; and the running total of a list of amounts.\<close>

definition accepted :: "row list \<Rightarrow> (string \<times> jsnum) list" where
  "accepted rows = concat (map (\<lambda>row. case generate_detail_record row of
        Inr (Some detail_record, Some amount_in_cents) \<Rightarrow> [(detail_record, amount_in_cents)]
      | _ \<Rightarrow> []) rows)"

definition running_total :: "jsnum list \<Rightarrow> jsnum" where
  "running_total amounts = foldl js_add (Num 0) amounts"

subsection \<open>Example inputs\<close>

text \<open>The third of November 2026, and the row of the end-to-end scenario with variations
  of single columns.\<close>

definition today0 :: date where
  "today0 = \<lparr>getDate = 3, getMonth = 10, getFullYear = 2026\<rparr>"

definition make_row :: "string \<Rightarrow> string \<Rightarrow> string \<Rightarrow> string \<Rightarrow> string \<Rightarrow> row" where
  "make_row b r n a m =
     map_of [(''BSB'', b), (''Reference'', r), (''Name'', n), (''Account'', a), (''Amount'', m)]"

definition row_smith :: row where
  "row_smith = make_row ''000-000'' ''TEST'' ''R SMITH'' ''157108231'' ''$12.00''"

definition row_empty :: row where
  "row_empty = make_row [] [] [] [] []"

definition row_blank_name :: row where
  "row_blank_name = make_row ''000-000'' ''TEST'' ''  '' ''157108231'' ''$12.00''"

definition header0 :: string where
  "header0 = ''0                 01CBA       Meya                      000000PAYROLL     031126                                        ''"

definition detail_smith :: string where
  "detail_smith = ''1000-000157108231 530000001200R SMITH                         TEST              000-000157108231Meya            00000000''"

definition trailer_smith :: string where
  "trailer_smith = ''7999-999            000000120000000012000000000000                        000001                                        ''"

text \<open>The document of the end-to-end scenario: three records, each followed by a newline.\<close>

definition doc_smith :: string where
  "doc_smith = header0 @ [NEWLINE] @ detail_smith @ [NEWLINE] @ trailer_smith @ [NEWLINE]"

text \<open>The trailer of a document without detail records.\<close>

definition zero_trailer :: string where
  "zero_trailer = ''7999-999            000000000000000000000000000000                        000000                                        ''"

text \<open>The exact sum of a list of amounts, when all of them are finite.\<close>

fun exact_sum :: "jsnum list \<Rightarrow> rat option" where
  "exact_sum [] = Some 0"
| "exact_sum (Num q # xs) = (case exact_sum xs of None \<Rightarrow> None | Some s \<Rightarrow> Some (q + s))"
| "exact_sum (x # xs) = None"

text \<open>Amounts in exponent notation: \<open>parseFloat\<close> reads \<open>1e19\<close> as \<open>10 ^ 19\<close>.\<close>

definition row_1e19 :: row where
  "row_1e19 = make_row ''000-000'' ''TEST'' ''R SMITH'' ''157108231'' ''1e19''"

definition row_cent :: row where
  "row_cent = make_row ''000-000'' ''TEST'' ''R SMITH'' ''157108231'' ''0.01''"

definition row_1234 :: row where
  "row_1234 = make_row ''000-000'' ''TEST'' ''R SMITH'' ''157108231'' ''$1,234.56''"

text \<open>The reading of the totals of a trailer \<open>t\<close> as the exact sum of the amounts: the
  amounts are finite, their sum is an integer, and characters 21 to 30 and 31 to 40 are
  its decimal digits, zero-filled to ten.\<close>

definition totals_are_exact_sum :: "jsnum list \<Rightarrow> string \<Rightarrow> bool" where
  "totals_are_exact_sum amounts t =
     (case exact_sum amounts of
        None \<Rightarrow> False
      | Some s \<Rightarrow> of_int \<lfloor>s\<rfloor> = s
                  \<and> field 20 30 t = padStart 10 ZERO (show_int \<lfloor>s\<rfloor>)
                  \<and> field 30 40 t = padStart 10 ZERO (show_int \<lfloor>s\<rfloor>))"

definition detail_1e19 :: string where
  "detail_1e19 = ''1000-000157108231 53000001e+21R SMITH                         TEST              000-000157108231Meya            00000000''"

definition detail_cent :: string where
  "detail_cent = ''1000-000157108231 530000000001R SMITH                         TEST              000-000157108231Meya            00000000''"

definition trailer_1e21 :: string where
  "trailer_1e21 = ''7999-999            000001e+21000001e+210000000000                        000002                                        ''"

definition detail_1234 :: string where
  "detail_1234 = ''1000-000157108231 530000123456R SMITH                         TEST              000-000157108231Meya            00000000''"

definition trailer_124656 :: string where
  "trailer_124656 = ''7999-999            000012465600001246560000000000                        000002                                        ''"

text \<open>Rows whose columns do not have the widths of their fields.\<close>

definition row_short_bsb :: row where
  "row_short_bsb = make_row ''1'' ''TEST'' ''R SMITH'' ''157108231'' ''$12.00''"

definition row_long_name :: row where
  "row_long_name = make_row ''000-000'' ''TEST'' ''MARGARET ELIZABETH WOLSTENHOLME J'' ''157108231'' ''$12.00''"

definition row_shifted :: row where
  "row_shifted = make_row ''000000'' ''TEST'' ''MARGARET ELIZABETH WOLSTENHOLME JR'' ''157108231'' ''$12.00''"

definition detail_shifted :: string where
  "detail_shifted = ''1000000157108231 530000001200MARGARET ELIZABETH WOLSTENHOLME JRTEST              000000157108231Meya            00000000''"

text \<open>Amounts with two commas and without digits.\<close>

definition row_million :: row where
  "row_million = make_row ''000-000'' ''TEST'' ''R SMITH'' ''157108231'' ''$1,234,567.89''"

definition detail_million :: string where
  "detail_million = ''1000-000157108231 530000123400R SMITH                         TEST              000-000157108231Meya            00000000''"

definition row_abc :: row where
  "row_abc = make_row ''000-000'' ''TEST'' ''R SMITH'' ''157108231'' ''abc''"

definition detail_abc :: string where
  "detail_abc = ''1000-000157108231 530000000NaNR SMITH                         TEST              000-000157108231Meya            00000000''"

definition trailer_nan :: string where
  "trailer_nan = ''7999-999            0000000NaN0000000NaN0000000000                        000002                                        ''"

section \<open>Properties of the library model\<close>

subsection \<open>Lengths of padded strings and digit strings\<close>

lemma length_padStart: "length (padStart n c s) = max n (length s)"
  by (simp add: padStart_def)

lemma length_padEnd: "length (padEnd n c s) = max n (length s)"
  by (simp add: padEnd_def)

lemma length_repeat: "length (repeat c n) = n"
  by (simp add: repeat_def)

lemma show_digits_nonempty: "show_digits n \<noteq> []"
  by (subst show_digits.simps) simp

lemma length_show_digits_le:
  "0 < k \<Longrightarrow> n < 10 ^ k \<Longrightarrow> length (show_digits n) \<le> k"
proof (induction n arbitrary: k rule: show_digits.induct)
  case (1 n)
  show ?case
  proof (cases "n < 10")
    case True
    with "1.prems" show ?thesis by (subst show_digits.simps) simp
  next
    case False
    with "1.prems" have k: "1 < k"
      by (cases "k = 1") auto
    then obtain j where j: "k = Suc j" "0 < j" by (cases k) auto
    from "1.prems" j have "n div 10 < 10 ^ j" by simp
    with "1.IH" [OF False, of j] j have "length (show_digits (n div 10)) \<le> j" by simp
    with False j show ?thesis by (subst show_digits.simps) simp
  qed
qed

lemma length_show_digits_ge:
  "10 ^ k \<le> n \<Longrightarrow> k < length (show_digits n)"
proof (induction n arbitrary: k rule: show_digits.induct)
  case (1 n)
  show ?case
  proof (cases "n < 10")
    case True
    have "k = 0"
    proof (cases k)
      case (Suc j)
      have "(1::int) \<le> 10 ^ j" by simp
      with Suc "1.prems" True show ?thesis by simp
    qed simp
    then show ?thesis using show_digits_nonempty [of n] by (cases "show_digits n") auto
  next
    case False
    show ?thesis
    proof (cases k)
      case 0
      then show ?thesis using show_digits_nonempty [of n] by (cases "show_digits n") auto
    next
      case (Suc j)
      with "1.prems" have "10 ^ j \<le> n div 10" by simp
      with "1.IH" [OF False, of j] have "j < length (show_digits (n div 10))" by simp
      with False Suc show ?thesis by (subst show_digits.simps) simp
    qed
  qed
qed

lemma digit_count_pos: "0 < x \<Longrightarrow> 0 < digit_count 2 x"
proof (induction "2::int" x rule: digit_count.induct)
  case (1 x)
  show ?case
  proof (cases "0 < x div 2")
    case True
    with 1 show ?thesis by (subst digit_count.simps) simp
  next
    case False
    then have "digit_count 2 (x div 2) = 0" by (subst digit_count.simps) simp
    with 1 show ?thesis by (subst digit_count.simps) simp
  qed
qed

lemma digit_count_bounds:
  "0 < x \<Longrightarrow> 2 ^ nat (digit_count 2 x - 1) \<le> x \<and> x < 2 ^ nat (digit_count 2 x)"
proof (induction "2::int" x rule: digit_count.induct)
  case (1 x)
  show ?case
  proof (cases "0 < x div 2")
    case False
    with "1.prems" have x: "x = 1" by presburger
    have "digit_count 2 (0::int) = 0" by (subst digit_count.simps) simp
    then have "digit_count 2 1 = 1" by (subst digit_count.simps) simp
    with x show ?thesis by simp
  next
    case True
    let ?d = "digit_count 2 (x div 2)"
    from "1.prems" have dc: "digit_count 2 x = ?d + 1" by (subst digit_count.simps) simp
    from True have dpos: "0 < ?d" by (rule digit_count_pos)
    from "1.hyps" "1.prems" True have ih: "2 ^ nat (?d - 1) \<le> x div 2" "x div 2 < 2 ^ nat ?d"
      by auto
    have n1: "nat (?d + 1 - 1) = Suc (nat (?d - 1))" using dpos by (simp add: nat_diff_distrib Suc_nat_eq_nat_zadd1)
    have n2: "nat (?d + 1) = Suc (nat ?d)" using dpos by (simp add: nat_add_distrib)
    from ih show ?thesis unfolding dc n1 n2 by auto
  qed
qed

subsection \<open>Integers up to \<open>2 ^ 53\<close> are not rounded\<close>

lemma digit_count_le:
  assumes "0 < x" "x < 2 ^ k"
  shows "digit_count 2 x \<le> int k"
proof (rule ccontr)
  assume "\<not> digit_count 2 x \<le> int k"
  then have "k \<le> nat (digit_count 2 x - 1)" by simp
  then have "(2::int) ^ k \<le> 2 ^ nat (digit_count 2 x - 1)"
    by (rule power_increasing) simp
  with digit_count_bounds [OF assms(1)] assms(2) show False by simp
qed

lemma floor_log_of_int:
  assumes "0 < n"
  shows "floor_log 2 (of_int n) = digit_count 2 n - 1"
proof -
  have "digit_count 2 (0::int) = 0" by (subst digit_count.simps) simp
  then have one: "digit_count 2 1 = 1" by (subst digit_count.simps) simp
  from digit_count_pos [OF assms] have k: "0 \<le> digit_count 2 n - 1" by simp
  from digit_count_bounds [OF assms] have "2 ^ nat (digit_count 2 n - 1) \<le> n" by simp
  then have "(of_int (2 ^ nat (digit_count 2 n - 1)) :: rat) \<le> of_int n"
    by (simp only: of_int_le_iff)
  then have "(2::rat) powi (digit_count 2 n - 1) \<le> of_int n"
    using k by (simp add: power_int_def)
  then show ?thesis by (simp add: floor_log_def one)
qed

lemma round_half_even_of_int: "round_half_even (of_int m) = m"
  by (simp add: round_half_even_def)

lemma round_double_of_int:
  assumes "0 \<le> n" "n \<le> 2 ^ 53"
  shows "round_double (of_int n) = Num (of_int n)"
proof (cases "n = 0")
  case True
  then show ?thesis by (simp add: round_double_def)
next
  case False
  with assms have pos: "0 < n" by simp
  define L where "L = digit_count 2 n - 1"
  have L0: "0 \<le> L" using digit_count_pos [OF pos] by (simp add: L_def)
  have lo: "2 ^ nat L \<le> n" and hi: "n < 2 ^ nat (L + 1)"
    using digit_count_bounds [OF pos] by (simp_all add: L_def)
  have "(2::int) ^ nat L \<le> 2 ^ 53" using lo assms(2) by (rule order_trans)
  then have L53: "nat L \<le> 53" by (rule power_le_imp_le_exp [of 2, rotated]) simp
  have fl: "floor_log 2 \<bar>rat_of_int n\<bar> = L"
    using pos floor_log_of_int [OF pos] by (simp add: L_def)
  have e: "max L (- 1022) - 52 = L - 52" using L0 by simp
  define m where "m = (if L \<le> 52 then n * 2 ^ nat (52 - L) else n div 2)"
  have props: "\<bar>rat_of_int n\<bar> / 2 powi (L - 52) = of_int m
      \<and> rat_of_int m * 2 powi (L - 52) = of_int n \<and> 0 < m \<and> m < 2 ^ 54"
  proof (cases "L \<le> 52")
    case True
    then have p: "(2::rat) powi (L - 52) = inverse (2 ^ nat (52 - L))"
      by (cases "L = 52") (simp_all add: power_int_def power_one_over inverse_eq_divide)
    from True have mm: "m = n * 2 ^ nat (52 - L)" by (simp add: m_def)
    have a: "\<bar>rat_of_int n\<bar> / 2 powi (L - 52) = of_int m"
      using pos by (simp add: p mm divide_inverse)
    have b: "rat_of_int m * 2 powi (L - 52) = of_int n"
      by (simp add: p mm)
    have c: "0 < m" using pos by (simp add: mm)
    have "n * 2 ^ nat (52 - L) < 2 ^ nat (L + 1) * 2 ^ nat (52 - L)"
      using hi by simp
    also have "\<dots> = 2 ^ (nat (L + 1) + nat (52 - L))" by (simp add: power_add)
    also have "nat (L + 1) + nat (52 - L) = 53" using L0 True by simp
    finally have d: "m < 2 ^ 54" by (simp add: mm)
    from a b c d show ?thesis by blast
  next
    case False
    with L53 L0 have L: "L = 53" by simp
    with lo assms(2) have n: "n = 2 ^ 53" by simp
    from False have mm: "m = n div 2" by (simp add: m_def)
    show ?thesis by (simp add: L n mm)
  qed
  then have quot: "\<bar>rat_of_int n\<bar> / 2 powi (L - 52) = of_int m"
    and undo: "rat_of_int m * 2 powi (L - 52) = of_int n"
    and mlt: "0 < m" "m < 2 ^ 54" by blast+
  have dc: "digit_count 2 m \<le> 54" using digit_count_le [OF mlt] by simp
  have "L - 52 \<le> 1" using L53 L0 by simp
  with dc have noover: "\<not> 1024 < digit_count 2 m + (L - 52)" by simp
  from pos have nz: "rat_of_int n \<noteq> 0" "\<not> rat_of_int n < 0" by simp_all
  show ?thesis
    unfolding round_double_def fl e Let_def quot round_half_even_of_int undo
    using nz noover by simp
qed

subsection \<open>Printing and adding integers up to \<open>2 ^ 53\<close>\<close>

lemma js_String_of_int:
  assumes "0 \<le> n" "n \<le> 2 ^ 53"
  shows "js_String (Num (of_int n)) = show_digits n"
proof -
  have "rat_of_int n \<le> of_int (2 ^ 53)" using assms(2) by (simp only: of_int_le_iff)
  then have "rat_of_int n \<le> 2 ^ 53" by simp
  with assms(1) show ?thesis by (simp add: show_positive_def)
qed

lemma foldl_js_add_exact:
  "0 \<le> a \<Longrightarrow> \<forall>n\<in>set ns. 0 \<le> n \<Longrightarrow> a + sum_list ns \<le> 2 ^ 53 \<Longrightarrow>
   foldl js_add (Num (of_int a)) (map (\<lambda>n. Num (of_int n)) ns) = Num (of_int (a + sum_list ns))"
proof (induction ns arbitrary: a)
  case Nil
  then show ?case by simp
next
  case (Cons n ns)
  from Cons.prems have n0: "0 \<le> n" and rest: "\<forall>k\<in>set ns. 0 \<le> k" by simp_all
  from rest have s0: "0 \<le> sum_list ns" by (simp add: sum_list_nonneg)
  with Cons.prems n0 have an: "0 \<le> a + n" "a + n \<le> 2 ^ 53" by simp_all
  have "js_add (Num (of_int a)) (Num (of_int n)) = round_double (of_int (a + n))" by simp
  also have "\<dots> = Num (of_int (a + n))" using an by (rule round_double_of_int)
  finally have step: "js_add (Num (of_int a)) (Num (of_int n)) = Num (of_int (a + n))" .
  have "foldl js_add (Num (of_int (a + n))) (map (\<lambda>n. Num (of_int n)) ns)
        = Num (of_int (a + n + sum_list ns))"
    using an(1) rest Cons.prems(3) by (intro Cons.IH) (simp_all add: add.assoc)
  then show ?case by (simp add: step add.assoc del: js_add.simps)
qed

lemma running_total_exact:
  assumes "\<forall>n\<in>set ns. 0 \<le> n" "sum_list ns \<le> 2 ^ 53"
  shows "running_total (map (\<lambda>n. Num (of_int n)) ns) = Num (of_int (sum_list ns))"
  using foldl_js_add_exact [of 0 ns] assms by (simp add: running_total_def)

section \<open>Properties of the records\<close>

subsection \<open>Detail record\<close>

lemma detail_record_shape:
  assumes "generate_detail_record row = Inr (Some r, Some a)"
  shows "\<not> list_ex (blank row) CSV_COLUMNS"
    and "a = amount_in_cents_of (column row ''Amount'')"
    and "length r = 120"
    and "r = ''1'' @ trim (column row ''BSB'') @ padStart 9 SPACE (trim (column row ''Account''))
           @ '' 53'' @ padStart 10 ZERO (js_String a)
           @ padEnd 32 SPACE (trim (column row ''Name''))
           @ padEnd 18 SPACE (trim (column row ''Reference''))
           @ trim (column row ''BSB'') @ padStart 9 SPACE (trim (column row ''Account''))
           @ padEnd 16 SPACE ''Meya'' @ repeat ZERO 8"
  using assms
  by (auto simp: generate_detail_record_def Let_def LINE_LENGTH_def split: if_splits)

lemma detail_record_results:
  "generate_detail_record row = Inr (x, y) \<Longrightarrow> (x = None \<and> y = None) \<or> (x \<noteq> None \<and> y \<noteq> None)"
  by (auto simp: generate_detail_record_def Let_def split: if_splits)

lemma detail_record_skip:
  "generate_detail_record row = Inr (None, None) \<longleftrightarrow> list_ex (blank row) CSV_COLUMNS"
  by (auto simp: generate_detail_record_def Let_def split: if_splits)

lemma detail_amount_field:
  assumes "generate_detail_record row = Inr (Some r, Some a)"
    and "length (trim (column row ''BSB'')) = 7"
    and "length (trim (column row ''Account'')) \<le> 9"
  shows "field 20 30 r = padStart 10 ZERO (js_String a)"
    and "length (js_String a) \<le> 10"
proof -
  note s = detail_record_shape [OF assms(1)]
  let ?P = "padStart 10 ZERO (js_String a)"
  from s(3) have "length r = 120" .
  then have len: "max 10 (length (js_String a)) + max 32 (length (trim (column row ''Name'')))
        + max 18 (length (trim (column row ''Reference''))) = 60"
    using assms(2,3)
    by (subst (asm) s(4)) (simp add: length_padStart length_padEnd length_repeat max_def split: if_splits)
  then show l10: "length (js_String a) \<le> 10" by (simp add: max_def split: if_splits)
  then have lp: "length ?P = 10" by (simp add: length_padStart)
  show "field 20 30 r = ?P"
    using assms(2,3) lp
    by (subst s(4)) (simp add: field_def length_padStart)
qed

subsection \<open>Descriptive record\<close>

lemma descriptive_record_shape:
  assumes "generate_descriptive_record today = Inr h"
  shows "length h = 120"
  using assms
  by (auto simp: generate_descriptive_record_def Let_def LINE_LENGTH_def split: if_splits)

lemma descriptive_record_returns:
  assumes "1 \<le> getDate today" "getDate today \<le> 31"
    and "0 \<le> getMonth today" "getMonth today \<le> 11"
    and "10 \<le> getFullYear today"
  shows "\<exists>h. generate_descriptive_record today = Inr h \<and> length h = 120"
proof -
  have d: "length (show_int (getDate today)) \<le> 2"
    using assms(1,2) length_show_digits_le [of 2 "getDate today"] by (simp add: show_int_def)
  have m: "length (show_int (getMonth today + 1)) \<le> 2"
    using assms(3,4) length_show_digits_le [of 2 "getMonth today + 1"] by (simp add: show_int_def)
  have y: "2 \<le> length (show_int (getFullYear today))"
    using assms(5) length_show_digits_ge [of 1 "getFullYear today"] by (simp add: show_int_def)
  have "length (slice_last 2 (show_int (getFullYear today))) = 2"
    using y by (simp add: slice_last_def)
  with d m show ?thesis
    by (simp add: generate_descriptive_record_def Let_def LINE_LENGTH_def
        length_padStart length_padEnd length_repeat)
qed

subsection \<open>File total record\<close>

lemma file_total_record_shape:
  assumes "generate_file_total_record aba tot = Inr t"
  shows "length t = 120"
    and "t = ''7999-999'' @ repeat SPACE 12 @ padStart 10 ZERO (js_String tot)
           @ padStart 10 ZERO (js_String tot) @ repeat ZERO 10 @ repeat SPACE 24
           @ padStart 6 ZERO (show_int (int (length aba) - 1)) @ repeat SPACE 40"
    and "length (js_String tot) \<le> 10"
    and "length (show_int (int (length aba) - 1)) \<le> 6"
proof -
  from assms show len: "length t = 120"
    by (auto simp: generate_file_total_record_def Let_def LINE_LENGTH_def split: if_splits)
  from assms show eq: "t = ''7999-999'' @ repeat SPACE 12 @ padStart 10 ZERO (js_String tot)
           @ padStart 10 ZERO (js_String tot) @ repeat ZERO 10 @ repeat SPACE 24
           @ padStart 6 ZERO (show_int (int (length aba) - 1)) @ repeat SPACE 40"
    by (auto simp: generate_file_total_record_def Let_def LINE_LENGTH_def split: if_splits)
  from len have "2 * max 10 (length (js_String tot))
      + max 6 (length (show_int (int (length aba) - 1))) = 26"
    by (subst (asm) eq) (simp add: length_padStart length_repeat)
  then show "length (js_String tot) \<le> 10" and "length (show_int (int (length aba) - 1)) \<le> 6"
    by (simp_all add: max_def split: if_splits)
qed

lemma file_total_record_fields:
  assumes "generate_file_total_record aba tot = Inr t"
  shows "field 20 30 t = padStart 10 ZERO (js_String tot)"
    and "field 30 40 t = padStart 10 ZERO (js_String tot)"
    and "field 40 50 t = replicate 10 CHR ''0''"
    and "field 74 80 t = padStart 6 ZERO (show_int (int (length aba) - 1))"
proof -
  note s = file_total_record_shape [OF assms]
  have p: "length (padStart 10 ZERO (js_String tot)) = 10"
    using s(3) by (simp add: length_padStart)
  have c: "length (padStart 6 ZERO (show_int (int (length aba) - 1))) = 6"
    using s(4) by (simp add: length_padStart)
  show "field 20 30 t = padStart 10 ZERO (js_String tot)"
    using p by (subst s(2)) (simp add: field_def length_repeat)
  show "field 30 40 t = padStart 10 ZERO (js_String tot)"
    using p by (subst s(2)) (simp add: field_def length_repeat)
  show "field 40 50 t = replicate 10 CHR ''0''"
    using p by (subst s(2)) (simp add: field_def length_repeat repeat_def ZERO_def)
  show "field 74 80 t = padStart 6 ZERO (show_int (int (length aba) - 1))"
    using p c by (subst s(2)) (simp add: field_def length_repeat)
qed

lemma file_total_record_returns:
  assumes "length (js_String tot) \<le> 10" "length (show_int (int (length aba) - 1)) \<le> 6"
  shows "\<exists>t. generate_file_total_record aba tot = Inr t \<and> length t = 120"
  using assms
  by (simp add: generate_file_total_record_def Let_def LINE_LENGTH_def
      length_padStart length_repeat)

subsection \<open>The loop over the rows\<close>

lemma accepted_Nil: "accepted [] = []"
  by (simp add: accepted_def)

lemma accepted_Cons_present:
  "generate_detail_record row = Inr (Some r, Some a) \<Longrightarrow>
   accepted (row # rows) = (r, a) # accepted rows"
  by (simp add: accepted_def)

lemma accepted_Cons_skip:
  "generate_detail_record row = Inr (None, None) \<Longrightarrow> accepted (row # rows) = accepted rows"
  by (simp add: accepted_def)

lemma accepted_append: "accepted (rows1 @ rows2) = accepted rows1 @ accepted rows2"
  by (simp add: accepted_def)

lemma process_rows_accepted:
  "process_rows rows aba tot = Inr (aba', tot') \<Longrightarrow>
   aba' = aba @ map fst (accepted rows) \<and> tot' = foldl js_add tot (map snd (accepted rows))"
proof (induction rows arbitrary: aba tot)
  case Nil
  then show ?case by (simp add: accepted_Nil)
next
  case (Cons row rows)
  from Cons.prems obtain x y where g: "generate_detail_record row = Inr (x, y)"
    by (auto split: sum.splits)
  from detail_record_results [OF g] consider
    "x = None" "y = None" | r a where "x = Some r" "y = Some a"
    by auto
  then show ?case
  proof cases
    case 1
    with g have gs: "generate_detail_record row = Inr (None, None)" by simp
    with Cons.prems have "process_rows rows aba tot = Inr (aba', tot')" by simp
    from Cons.IH [OF this] show ?thesis by (simp add: accepted_Cons_skip [OF gs])
  next
    case 2
    with g have gp: "generate_detail_record row = Inr (Some r, Some a)" by simp
    with Cons.prems have "process_rows rows (aba @ [r]) (js_add tot a) = Inr (aba', tot')"
      by simp
    from Cons.IH [OF this] show ?thesis by (simp add: accepted_Cons_present [OF gp])
  qed
qed

lemma process_rows_blank:
  assumes "list_ex (blank row) CSV_COLUMNS"
  shows "process_rows (rows1 @ row # rows2) aba tot = process_rows (rows1 @ rows2) aba tot"
proof (induction rows1 arbitrary: aba tot)
  case Nil
  from assms have "generate_detail_record row = Inr (None, None)"
    by (simp add: detail_record_skip)
  then show ?case by simp
next
  case (Cons r rows1)
  then show ?case by (simp split: sum.splits option.splits prod.splits)
qed

lemma process_rows_all_blank:
  "\<forall>row\<in>set rows. list_ex (blank row) CSV_COLUMNS \<Longrightarrow>
   process_rows rows aba tot = Inr (aba, tot)"
proof (induction rows)
  case Nil
  then show ?case by simp
next
  case (Cons row rows)
  then have "generate_detail_record row = Inr (None, None)"
    by (simp add: detail_record_skip)
  with Cons show ?case by simp
qed

lemma aba_records_shape:
  assumes "aba_records today rows = Inr recs"
  shows "\<exists>h t. generate_descriptive_record today = Inr h
          \<and> generate_file_total_record (h # map fst (accepted rows))
                (running_total (map snd (accepted rows))) = Inr t
          \<and> recs = h # map fst (accepted rows) @ [t]"
proof -
  from assms obtain h where h: "generate_descriptive_record today = Inr h"
    by (auto simp: aba_records_def split: sum.splits)
  with assms obtain aba tot where p: "process_rows rows [h] (Num 0) = Inr (aba, tot)"
    by (auto simp: aba_records_def split: sum.splits)
  with assms h obtain t where t: "generate_file_total_record aba tot = Inr t"
    and recs: "recs = aba @ [t]"
    by (auto simp: aba_records_def split: sum.splits)
  from process_rows_accepted [OF p]
  have "aba = h # map fst (accepted rows)" "tot = running_total (map snd (accepted rows))"
    by (simp_all add: running_total_def)
  with h t recs show ?thesis by simp
qed

section \<open>The claims\<close>

lemma processCsvToAba_shape:
  assumes "processCsvToAba today rows = Inr doc"
  shows "\<exists>h t. generate_descriptive_record today = Inr h
          \<and> generate_file_total_record (h # map fst (accepted rows))
                (running_total (map snd (accepted rows))) = Inr t
          \<and> doc = join [NEWLINE] (h # map fst (accepted rows) @ [t]) @ [NEWLINE]"
proof -
  from assms obtain recs where r: "aba_records today rows = Inr recs"
    and d: "doc = join [NEWLINE] recs @ [NEWLINE]"
    by (auto simp: processCsvToAba_def split: sum.splits)
  from aba_records_shape [OF r] d show ?thesis by auto
qed

lemma aba_records_blank:
  assumes "list_ex (blank row) CSV_COLUMNS"
  shows "aba_records today (rows1 @ row # rows2) = aba_records today (rows1 @ rows2)"
  by (simp add: aba_records_def process_rows_blank [OF assms] cong: sum.case_cong)

text \<open>
  Claim C3. A row in which one of the five columns \<open>BSB\<close>, \<open>Reference\<close>, \<open>Name\<close>,
  \<open>Account\<close>, \<open>Amount\<close> is missing (\<open>undefined\<close> or \<open>null\<close>) or trims to the empty
  string makes \<open>generate_detail_record\<close> return \<open>[null, null]\<close>. The loop of
  \<open>processCsvToAba\<close> passes over it with the array and the running total unchanged, so
  the accepted rows, the array with its trailer and the document are those of the table
  without the row.
\<close>

theorem blank_row_is_skipped:
  assumes "col \<in> set CSV_COLUMNS" and "blank row col"
  shows "generate_detail_record row = Inr (None, None)
       \<and> process_rows (row # rows) aba tot = process_rows rows aba tot
       \<and> accepted (rows1 @ row # rows2) = accepted (rows1 @ rows2)
       \<and> aba_records today (rows1 @ row # rows2) = aba_records today (rows1 @ rows2)
       \<and> processCsvToAba today (rows1 @ row # rows2) = processCsvToAba today (rows1 @ rows2)"
proof -
  from assms have b: "list_ex (blank row) CSV_COLUMNS"
    by (auto simp: list_ex_iff)
  then have skip: "generate_detail_record row = Inr (None, None)"
    by (simp add: detail_record_skip)
  have acc: "accepted (rows1 @ row # rows2) = accepted (rows1 @ rows2)"
    using accepted_append [of rows1 "row # rows2"] accepted_append [of rows1 rows2]
    by (simp add: accepted_Cons_skip [OF skip])
  have recs: "aba_records today (rows1 @ row # rows2) = aba_records today (rows1 @ rows2)"
    using b by (rule aba_records_blank)
  from skip acc recs show ?thesis by (simp add: processCsvToAba_def)
qed

theorem blank_row_is_skipped_witness:
  "''Name'' \<in> set CSV_COLUMNS \<and> blank row_blank_name ''Name''
   \<and> generate_detail_record row_blank_name = Inr (None, None)
   \<and> accepted [row_smith, row_blank_name] = accepted [row_smith]
   \<and> processCsvToAba today0 [row_smith, row_blank_name] = processCsvToAba today0 [row_smith]"
proof -
  have c: "''Name'' \<in> set CSV_COLUMNS" by (simp add: CSV_COLUMNS_def)
  have b: "blank row_blank_name ''Name''" by code_simp
  from blank_row_is_skipped [OF c b, of _ _ _ "[row_smith]" "[]" today0] c b
  show ?thesis by simp
qed

lemma accepted_length:
  "(r, a) \<in> set (accepted rows) \<Longrightarrow> length r = 120"
proof (induction rows)
  case Nil
  then show ?case by (simp add: accepted_Nil)
next
  case (Cons row rows)
  obtain res where res: "generate_detail_record row = res" by simp
  show ?case
  proof (cases "\<exists>r' a'. generate_detail_record row = Inr (Some r', Some a')")
    case True
    then obtain r' a' where g: "generate_detail_record row = Inr (Some r', Some a')" by blast
    from Cons.prems have "(r, a) = (r', a') \<or> (r, a) \<in> set (accepted rows)"
      by (simp add: accepted_Cons_present [OF g])
    with Cons.IH detail_record_shape(3) [OF g] show ?thesis by auto
  next
    case False
    then have "accepted (row # rows) = accepted rows"
      by (auto simp: accepted_def split: sum.splits option.splits prod.splits)
    with Cons show ?thesis by simp
  qed
qed

lemma count_field:
  assumes "generate_file_total_record (h # ds) tot = Inr t"
  shows "field 74 80 t = padStart 6 ZERO (show_digits (int (length ds)))"
    and "length (field 74 80 t) = 6"
    and "length ds < 10 ^ 6"
proof -
  have c: "show_int (int (length (h # ds)) - 1) = show_digits (int (length ds))"
    by (simp add: show_int_def)
  from file_total_record_fields(4) [OF assms]
  show f: "field 74 80 t = padStart 6 ZERO (show_digits (int (length ds)))"
    by (simp only: c)
  from file_total_record_shape(4) [OF assms]
  have l: "length (show_digits (int (length ds))) \<le> 6" by (simp only: c)
  then show "length (field 74 80 t) = 6" by (simp add: f length_padStart)
  show "length ds < 10 ^ 6"
  proof (rule ccontr)
    assume "\<not> length ds < 10 ^ 6"
    then have "(10::int) ^ 6 \<le> int (length ds)" by simp
    from length_show_digits_ge [OF this] l show False by simp
  qed
qed

text \<open>
  Claim C2. In every document that \<open>processCsvToAba\<close> assembles, the records between the
  descriptive record and the trailer are those of the accepted rows, in input order, and
  the characters 75 to 80 of the trailer are the number of accepted rows in decimal,
  zero-filled to six digits: the count of the detail records in the document, not the
  number of input rows.
\<close>

theorem trailer_count_is_accepted_rows:
  assumes "processCsvToAba today rows = Inr doc"
  shows "\<exists>h t. generate_descriptive_record today = Inr h
           \<and> generate_file_total_record (h # map fst (accepted rows))
                 (running_total (map snd (accepted rows))) = Inr t
           \<and> doc = join [NEWLINE] (h # map fst (accepted rows) @ [t]) @ [NEWLINE]
           \<and> field 74 80 t = padStart 6 ZERO (show_digits (int (length (accepted rows))))
           \<and> length (field 74 80 t) = 6
           \<and> length (accepted rows) < 10 ^ 6"
proof -
  from processCsvToAba_shape [OF assms] obtain h t where
    h: "generate_descriptive_record today = Inr h" and
    t: "generate_file_total_record (h # map fst (accepted rows))
          (running_total (map snd (accepted rows))) = Inr t" and
    d: "doc = join [NEWLINE] (h # map fst (accepted rows) @ [t]) @ [NEWLINE]"
    by blast
  from count_field [OF t] h t d show ?thesis by auto
qed

theorem trailer_count_is_accepted_rows_witness:
  "processCsvToAba today0 [row_smith, row_empty]
     = Inr (join [NEWLINE] [header0, detail_smith, trailer_smith] @ [NEWLINE])
   \<and> accepted [row_smith, row_empty] = [(detail_smith, Num 1200)]
   \<and> field 74 80 trailer_smith = ''000001''"
proof -
  have doc: "processCsvToAba today0 [row_smith, row_empty]
     = Inr (join [NEWLINE] [header0, detail_smith, trailer_smith] @ [NEWLINE])"
    by code_simp
  have acc: "accepted [row_smith, row_empty] = [(detail_smith, Num 1200)]"
    by code_simp
  have hd: "generate_descriptive_record today0 = Inr header0"
    by code_simp
  have tr: "generate_file_total_record [header0, detail_smith] (Num 1200) = Inr trailer_smith"
    by code_simp
  have one: "padStart 6 ZERO (show_digits 1) = ''000001''"
    by code_simp
  from trailer_count_is_accepted_rows [OF doc]
  have "field 74 80 trailer_smith = ''000001''"
    by (simp add: acc hd tr running_total_def one)
  with doc acc show ?thesis by simp
qed

subsection \<open>Evaluating the records from their parts\<close>

lemma detail_record_eval:
  assumes "\<not> list_ex (blank row) CSV_COLUMNS"
    and "amount_in_cents_of (column row ''Amount'') = a"
    and "js_String a = s"
    and "r = concat [''1'', trim (column row ''BSB''), padStart 9 SPACE (trim (column row ''Account'')),
           '' '', ''53'', padStart 10 ZERO s, padEnd 32 SPACE (trim (column row ''Name'')),
           padEnd 18 SPACE (trim (column row ''Reference'')), trim (column row ''BSB''),
           padStart 9 SPACE (trim (column row ''Account'')), padEnd 16 SPACE ''Meya'',
           repeat ZERO 8]"
    and "length r = 120"
  shows "generate_detail_record row = Inr (Some r, Some a)"
  using assms by (simp add: generate_detail_record_def Let_def LINE_LENGTH_def)

lemma file_total_record_eval:
  assumes "js_String tot = s"
    and "t = concat [''7'', ''999-999'', repeat SPACE 12, padStart 10 ZERO s, padStart 10 ZERO s,
           repeat ZERO 10, repeat SPACE 24,
           padStart 6 ZERO (show_int (int (length aba) - 1)), repeat SPACE 40]"
    and "length t = 120"
  shows "generate_file_total_record aba tot = Inr t"
  using assms by (simp add: generate_file_total_record_def Let_def LINE_LENGTH_def)

lemma aba_records_eval:
  assumes "generate_descriptive_record today = Inr h"
    and "process_rows rows [h] (Num 0) = Inr (aba, tot)"
    and "generate_file_total_record aba tot = Inr t"
  shows "aba_records today rows = Inr (aba @ [t])"
  using assms by (simp add: aba_records_def)

lemma processCsvToAba_eval:
  assumes "aba_records today rows = Inr recs"
  shows "processCsvToAba today rows = Inr (join [NEWLINE] recs @ [NEWLINE])"
  using assms by (simp add: processCsvToAba_def)

lemma header0_eval: "generate_descriptive_record today0 = Inr header0"
  by code_simp

subsection \<open>The rows \<open>1e19\<close> and \<open>0.01\<close>\<close>

lemma amount_1e19: "amount_in_cents_of ''1e19'' = Num 1000000000000000000000"
  by code_simp

lemma amount_cent: "amount_in_cents_of ''0.01'' = Num 1"
  by code_simp

lemma string_1e21: "js_String (Num 1000000000000000000000) = ''1e+21''"
  by code_simp

lemma add_0_1e21: "js_add (Num 0) (Num 1000000000000000000000) = Num 1000000000000000000000"
  by code_simp

lemma add_1e21_1: "js_add (Num 1000000000000000000000) (Num 1) = Num 1000000000000000000000"
  by code_simp

lemma detail_1e19_eval:
  "generate_detail_record row_1e19 = Inr (Some detail_1e19, Some (Num 1000000000000000000000))"
proof (rule detail_record_eval)
  show "\<not> list_ex (blank row_1e19) CSV_COLUMNS" by code_simp
  have "column row_1e19 ''Amount'' = ''1e19''" by code_simp
  then show "amount_in_cents_of (column row_1e19 ''Amount'') = Num 1000000000000000000000"
    by (simp only: amount_1e19)
  show "js_String (Num 1000000000000000000000) = ''1e+21''" by (rule string_1e21)
  show "detail_1e19 = concat [''1'', trim (column row_1e19 ''BSB''),
           padStart 9 SPACE (trim (column row_1e19 ''Account'')),
           '' '', ''53'', padStart 10 ZERO ''1e+21'',
           padEnd 32 SPACE (trim (column row_1e19 ''Name'')),
           padEnd 18 SPACE (trim (column row_1e19 ''Reference'')), trim (column row_1e19 ''BSB''),
           padStart 9 SPACE (trim (column row_1e19 ''Account'')), padEnd 16 SPACE ''Meya'',
           repeat ZERO 8]" by code_simp
  show "length detail_1e19 = 120" by code_simp
qed

lemma detail_cent_eval:
  "generate_detail_record row_cent = Inr (Some detail_cent, Some (Num 1))"
proof (rule detail_record_eval)
  show "\<not> list_ex (blank row_cent) CSV_COLUMNS" by code_simp
  have "column row_cent ''Amount'' = ''0.01''" by code_simp
  then show "amount_in_cents_of (column row_cent ''Amount'') = Num 1"
    by (simp only: amount_cent)
  show "js_String (Num 1) = ''1''" by code_simp
  show "detail_cent = concat [''1'', trim (column row_cent ''BSB''),
           padStart 9 SPACE (trim (column row_cent ''Account'')),
           '' '', ''53'', padStart 10 ZERO ''1'',
           padEnd 32 SPACE (trim (column row_cent ''Name'')),
           padEnd 18 SPACE (trim (column row_cent ''Reference'')), trim (column row_cent ''BSB''),
           padStart 9 SPACE (trim (column row_cent ''Account'')), padEnd 16 SPACE ''Meya'',
           repeat ZERO 8]" by code_simp
  show "length detail_cent = 120" by code_simp
qed

lemma trailer_1e21_eval:
  "generate_file_total_record [header0, detail_1e19, detail_cent]
     (Num 1000000000000000000000) = Inr trailer_1e21"
proof (rule file_total_record_eval)
  show "js_String (Num 1000000000000000000000) = ''1e+21''" by (rule string_1e21)
  show "trailer_1e21 = concat [''7'', ''999-999'', repeat SPACE 12, padStart 10 ZERO ''1e+21'',
           padStart 10 ZERO ''1e+21'', repeat ZERO 10, repeat SPACE 24,
           padStart 6 ZERO (show_int (int (length [header0, detail_1e19, detail_cent]) - 1)),
           repeat SPACE 40]" by code_simp
  show "length trailer_1e21 = 120" by code_simp
qed

lemma records_1e21_eval:
  "aba_records today0 [row_1e19, row_cent] = Inr [header0, detail_1e19, detail_cent, trailer_1e21]"
proof -
  have "process_rows [row_1e19, row_cent] [header0] (Num 0)
        = Inr ([header0, detail_1e19, detail_cent], Num 1000000000000000000000)"
    by (simp add: detail_1e19_eval detail_cent_eval add_0_1e21 add_1e21_1 del: js_add.simps)
  from aba_records_eval [OF header0_eval this trailer_1e21_eval] show ?thesis by simp
qed

lemma accepted_1e21_eval:
  "accepted [row_1e19, row_cent]
   = [(detail_1e19, Num 1000000000000000000000), (detail_cent, Num 1)]"
  by (simp add: accepted_def detail_1e19_eval detail_cent_eval)

lemma exact_sum_ints:
  "exact_sum (map (\<lambda>n. Num (of_int n)) ns) = Some (of_int (sum_list ns))"
  by (induction ns) simp_all

text \<open>
  Claim C1, as amended. In every document that \<open>processCsvToAba\<close> assembles, characters
  21 to 30 and 31 to 40 of the trailer are equal, characters 41 to 50 are ten zeros, and
  both totals are \<open>String(total_amount).padStart(10, '0')\<close> for the running total of the
  accepted amounts, added as Numbers in input order. When the accepted amounts are
  non-negative integers whose sum does not exceed \<open>2 ^ 53\<close>, the running total is their
  exact sum, the sum is below \<open>10 ^ 10\<close>, and both totals are its decimal digits
  zero-filled to ten.
\<close>

theorem trailer_totals:
  assumes "processCsvToAba today rows = Inr doc"
  shows "\<exists>h t. generate_descriptive_record today = Inr h
           \<and> generate_file_total_record (h # map fst (accepted rows))
                 (running_total (map snd (accepted rows))) = Inr t
           \<and> doc = join [NEWLINE] (h # map fst (accepted rows) @ [t]) @ [NEWLINE]
           \<and> field 20 30 t = field 30 40 t
           \<and> field 40 50 t = ''0000000000''
           \<and> field 20 30 t = padStart 10 ZERO (js_String (running_total (map snd (accepted rows))))
           \<and> (\<forall>ns. map snd (accepted rows) = map (\<lambda>n. Num (of_int n)) ns
                  \<and> (\<forall>n\<in>set ns. 0 \<le> n) \<and> sum_list ns \<le> 2 ^ 53
                \<longrightarrow> running_total (map snd (accepted rows)) = Num (of_int (sum_list ns))
                  \<and> sum_list ns < 10 ^ 10
                  \<and> field 20 30 t = padStart 10 ZERO (show_digits (sum_list ns))
                  \<and> totals_are_exact_sum (map snd (accepted rows)) t)"
proof -
  let ?amounts = "map snd (accepted rows)"
  from processCsvToAba_shape [OF assms] obtain h t where
    h: "generate_descriptive_record today = Inr h" and
    t: "generate_file_total_record (h # map fst (accepted rows)) (running_total ?amounts) = Inr t" and
    d: "doc = join [NEWLINE] (h # map fst (accepted rows) @ [t]) @ [NEWLINE]"
    by blast
  note f = file_total_record_fields [OF t]
  have net: "field 20 30 t = padStart 10 ZERO (js_String (running_total ?amounts))"
    and credit: "field 30 40 t = padStart 10 ZERO (js_String (running_total ?amounts))"
    by (rule f(1), rule f(2))
  have debit: "field 40 50 t = ''0000000000''"
    using f(3) by (simp add: numeral_eq_Suc)
  have exact: "running_total ?amounts = Num (of_int (sum_list ns))
        \<and> sum_list ns < 10 ^ 10
        \<and> field 20 30 t = padStart 10 ZERO (show_digits (sum_list ns))
        \<and> totals_are_exact_sum ?amounts t"
    if ns: "?amounts = map (\<lambda>n. Num (of_int n)) ns" and nonneg: "\<forall>n\<in>set ns. 0 \<le> n"
      and le: "sum_list ns \<le> 2 ^ 53" for ns
  proof -
    from nonneg have s0: "0 \<le> sum_list ns" by (simp add: sum_list_nonneg)
    have rt: "running_total ?amounts = Num (of_int (sum_list ns))"
      unfolding ns using nonneg le by (rule running_total_exact)
    have str: "js_String (running_total ?amounts) = show_digits (sum_list ns)"
      unfolding rt using s0 le by (rule js_String_of_int)
    from file_total_record_shape(3) [OF t] have l: "length (show_digits (sum_list ns)) \<le> 10"
      by (simp only: str)
    have lt: "sum_list ns < 10 ^ 10"
    proof (rule ccontr)
      assume "\<not> sum_list ns < 10 ^ 10"
      then have "(10::int) ^ 10 \<le> sum_list ns" by simp
      from length_show_digits_ge [OF this] l show False by simp
    qed
    have n: "field 20 30 t = padStart 10 ZERO (show_digits (sum_list ns))"
      and c: "field 30 40 t = padStart 10 ZERO (show_digits (sum_list ns))"
      using net credit by (simp_all only: str)
    have "totals_are_exact_sum ?amounts t"
      unfolding ns totals_are_exact_sum_def exact_sum_ints
      using n c s0 by (simp add: show_int_def)
    with rt lt n show ?thesis by simp
  qed
  have eq: "field 20 30 t = field 30 40 t"
    by (simp only: net credit)
  show ?thesis
    by (rule exI [of _ h], rule exI [of _ t]) (use h t d eq net debit exact in blast)
qed

lemma amount_1234: "amount_in_cents_of ''$1,234.56'' = Num 123456"
  by code_simp

lemma detail_smith_eval:
  "generate_detail_record row_smith = Inr (Some detail_smith, Some (Num 1200))"
  by code_simp

lemma detail_1234_eval:
  "generate_detail_record row_1234 = Inr (Some detail_1234, Some (Num 123456))"
  by code_simp

lemma row_empty_eval: "generate_detail_record row_empty = Inr (None, None)"
  by code_simp

theorem trailer_totals_witness:
  "processCsvToAba today0 [row_smith, row_empty, row_1234]
     = Inr (join [NEWLINE] [header0, detail_smith, detail_1234, trailer_124656] @ [NEWLINE])
   \<and> map snd (accepted [row_smith, row_empty, row_1234]) = map (\<lambda>n. Num (of_int n)) [1200, 123456]
   \<and> field 20 30 trailer_124656 = ''0000124656''
   \<and> field 30 40 trailer_124656 = ''0000124656''
   \<and> field 40 50 trailer_124656 = ''0000000000''
   \<and> totals_are_exact_sum (map snd (accepted [row_smith, row_empty, row_1234])) trailer_124656"
proof -
  let ?rows = "[row_smith, row_empty, row_1234]"
  have acc: "accepted ?rows = [(detail_smith, Num 1200), (detail_1234, Num 123456)]"
    by (simp add: accepted_def detail_smith_eval detail_1234_eval row_empty_eval)
  have rt: "running_total [Num 1200, Num 123456] = Num 124656"
    by code_simp
  have tr: "generate_file_total_record [header0, detail_smith, detail_1234] (Num 124656)
            = Inr trailer_124656"
    by code_simp
  have pr: "process_rows ?rows [header0] (Num 0)
            = Inr ([header0, detail_smith, detail_1234], Num 124656)"
    using rt
    by (simp add: detail_smith_eval detail_1234_eval row_empty_eval running_total_def
        del: js_add.simps)
  from aba_records_eval [OF header0_eval pr tr]
  have "aba_records today0 ?rows = Inr [header0, detail_smith, detail_1234, trailer_124656]"
    by simp
  from processCsvToAba_eval [OF this]
  have doc: "processCsvToAba today0 ?rows
     = Inr (join [NEWLINE] [header0, detail_smith, detail_1234, trailer_124656] @ [NEWLINE])" .
  have amounts: "map snd (accepted ?rows) = map (\<lambda>n. Num (of_int n)) [1200, 123456]"
    by (simp add: acc)
  have digits: "padStart 10 ZERO (show_digits 124656) = ''0000124656''"
    by code_simp
  from trailer_totals [OF doc] obtain h t where
    h: "generate_descriptive_record today0 = Inr h" and
    t: "generate_file_total_record (h # map fst (accepted ?rows))
          (running_total (map snd (accepted ?rows))) = Inr t" and
    eq: "field 20 30 t = field 30 40 t" and
    debit: "field 40 50 t = ''0000000000''" and
    ex: "\<forall>ns. map snd (accepted ?rows) = map (\<lambda>n. Num (of_int n)) ns
                  \<and> (\<forall>n\<in>set ns. 0 \<le> n) \<and> sum_list ns \<le> 2 ^ 53
                \<longrightarrow> running_total (map snd (accepted ?rows)) = Num (of_int (sum_list ns))
                  \<and> sum_list ns < 10 ^ 10
                  \<and> field 20 30 t = padStart 10 ZERO (show_digits (sum_list ns))
                  \<and> totals_are_exact_sum (map snd (accepted ?rows)) t"
    by blast
  from h header0_eval have hh: "h = header0" by simp
  from t have "t = trailer_124656"
    by (simp add: hh acc rt tr)
  with eq debit ex [rule_format, of "[1200, 123456]"] amounts digits doc
  show ?thesis by simp
qed

text \<open>
  Claim C1 as stated fails on the table with the amounts \<open>1e19\<close> and \<open>0.01\<close>. Both rows
  are accepted, with the amounts \<open>10 ^ 21\<close> and \<open>1\<close> cents; the running total stays
  \<open>10 ^ 21\<close>, since \<open>10 ^ 21 + 1\<close> is not a Number, and both totals of the trailer read
  \<open>000001e+21\<close>, not the digits of the sum \<open>10 ^ 21 + 1\<close>.
\<close>

theorem trailer_totals_counterexample:
  "processCsvToAba today0 [row_1e19, row_cent]
     = Inr (join [NEWLINE] [header0, detail_1e19, detail_cent, trailer_1e21] @ [NEWLINE])
   \<and> map snd (accepted [row_1e19, row_cent]) = [Num 1000000000000000000000, Num 1]
   \<and> exact_sum (map snd (accepted [row_1e19, row_cent])) = Some 1000000000000000000001
   \<and> field 20 30 trailer_1e21 = ''000001e+21''
   \<and> field 30 40 trailer_1e21 = ''000001e+21''
   \<and> \<not> totals_are_exact_sum (map snd (accepted [row_1e19, row_cent])) trailer_1e21"
proof -
  have f: "field 20 30 trailer_1e21 = ''000001e+21''" "field 30 40 trailer_1e21 = ''000001e+21''"
    by code_simp+
  have p: "padStart 10 ZERO (show_int 1000000000000000000001) = ''1000000000000000000001''"
    by code_simp
  have s: "exact_sum [Num 1000000000000000000000, Num 1] = Some 1000000000000000000001"
    by simp
  have "\<not> totals_are_exact_sum [Num 1000000000000000000000, Num 1] trailer_1e21"
    unfolding totals_are_exact_sum_def s by (simp add: f p)
  with processCsvToAba_eval [OF records_1e21_eval] f s show ?thesis
    by (simp add: accepted_1e21_eval)
qed

subsection \<open>The document without detail records\<close>

lemma accepted_all_blank:
  "\<forall>row\<in>set rows. list_ex (blank row) CSV_COLUMNS \<Longrightarrow> accepted rows = []"
proof (induction rows)
  case Nil
  then show ?case by (simp add: accepted_Nil)
next
  case (Cons row rows)
  then have "generate_detail_record row = Inr (None, None)"
    by (simp add: detail_record_skip)
  from accepted_Cons_skip [OF this] Cons show ?case by simp
qed

lemma zero_trailer_eval: "generate_file_total_record [h] (Num 0) = Inr zero_trailer"
proof (rule file_total_record_eval)
  show "js_String (Num 0) = ''0''" by code_simp
  have "show_digits 0 = ''0''" by code_simp
  then have c: "show_int (int (length [h]) - 1) = ''0''"
    by (simp add: show_int_def)
  have "zero_trailer = concat [''7'', ''999-999'', repeat SPACE 12, padStart 10 ZERO ''0'',
           padStart 10 ZERO ''0'', repeat ZERO 10, repeat SPACE 24,
           padStart 6 ZERO ''0'', repeat SPACE 40]"
    by code_simp
  then show "zero_trailer = concat [''7'', ''999-999'', repeat SPACE 12, padStart 10 ZERO ''0'',
           padStart 10 ZERO ''0'', repeat ZERO 10, repeat SPACE 24,
           padStart 6 ZERO (show_int (int (length [h]) - 1)), repeat SPACE 40]"
    by (simp only: c)
  show "length zero_trailer = 120" by code_simp
qed

lemma all_blank_document:
  assumes "generate_descriptive_record today = Inr h"
    and "\<forall>row\<in>set rows. list_ex (blank row) CSV_COLUMNS"
  shows "processCsvToAba today rows = Inr (h @ [NEWLINE] @ zero_trailer @ [NEWLINE])"
proof -
  from assms(2) have "process_rows rows [h] (Num 0) = Inr ([h], Num 0)"
    by (rule process_rows_all_blank)
  from aba_records_eval [OF assms(1) this zero_trailer_eval]
  have "aba_records today rows = Inr [h, zero_trailer]" by simp
  from processCsvToAba_eval [OF this] show ?thesis by simp
qed

subsection \<open>The document as lines\<close>

lemma join_terminated:
  "recs \<noteq> [] \<Longrightarrow> join sep recs @ sep = concat (map (\<lambda>r. r @ sep) recs)"
  by (induction sep recs rule: join.induct) simp_all

lemma lines_at:
  assumes "\<forall>r\<in>set recs. length r = 120" and "i < length recs"
  shows "take 120 (drop (121 * i) (concat (map (\<lambda>r. r @ [NEWLINE]) recs))) = recs ! i
       \<and> concat (map (\<lambda>r. r @ [NEWLINE]) recs) ! (121 * i + 120) = NEWLINE"
  using assms
proof (induction recs arbitrary: i)
  case Nil
  then show ?case by simp
next
  case (Cons r recs)
  from Cons.prems have lr: "length r = 120" by simp
  show ?case
  proof (cases i)
    case 0
    with lr show ?thesis by (simp add: nth_append)
  next
    case (Suc j)
    with Cons.prems have j: "j < length recs" and all: "\<forall>r\<in>set recs. length r = 120"
      by simp_all
    let ?x = "r @ [NEWLINE]" and ?c = "concat (map (\<lambda>r. r @ [NEWLINE]) recs)"
    have lx: "length ?x = 121" using lr by simp
    have c: "concat (map (\<lambda>r. r @ [NEWLINE]) (r # recs)) = ?x @ ?c" by simp
    have d1: "121 * i = length ?x + 121 * j" using lx Suc by simp
    have d2: "121 * i + 120 = length ?x + (121 * j + 120)" using lx Suc by simp
    have "drop (121 * i) (?x @ ?c) = drop (121 * j) ?c"
      unfolding d1 by (simp only: drop_append length_append) simp
    moreover have "(?x @ ?c) ! (121 * i + 120) = ?c ! (121 * j + 120)"
      unfolding d2 by (rule nth_append_length_plus)
    moreover have "(r # recs) ! i = recs ! j" using Suc by simp
    ultimately show ?thesis using Cons.IH [OF all j] by (simp only: c)
  qed
qed

lemma length_lines:
  "\<forall>r\<in>set recs. length r = 120 \<Longrightarrow>
   length (concat (map (\<lambda>r. r @ [NEWLINE]) recs)) = 121 * length recs"
  by (induction recs) simp_all

lemma process_rows_returns_iff:
  "(\<exists>res. process_rows rows aba tot = Inr res)
   \<longleftrightarrow> (\<forall>row\<in>set rows. \<forall>e. generate_detail_record row \<noteq> Inl e)"
proof (induction rows arbitrary: aba tot)
  case Nil
  then show ?case by simp
next
  case (Cons row rows)
  show ?case
  proof (cases "generate_detail_record row")
    case (Inl e)
    then show ?thesis by auto
  next
    case (Inr p)
    obtain x y where p: "p = (x, y)" by (cases p)
    from detail_record_results [of row x y] Inr p consider
      "x = None" "y = None" | r a where "x = Some r" "y = Some a"
      by auto
    then show ?thesis
    proof cases
      case 1
      with Inr p Cons.IH [of aba tot] show ?thesis by simp
    next
      case 2
      with Inr p Cons.IH [of "aba @ [r]" "js_add tot a"] show ?thesis by simp
    qed
  qed
qed

lemma processCsvToAba_returns_iff:
  "(\<exists>doc. processCsvToAba today rows = Inr doc)
   \<longleftrightarrow> (\<exists>h t. generate_descriptive_record today = Inr h
         \<and> (\<forall>row\<in>set rows. \<forall>e. generate_detail_record row \<noteq> Inl e)
         \<and> generate_file_total_record (h # map fst (accepted rows))
               (running_total (map snd (accepted rows))) = Inr t)"
proof
  assume "\<exists>doc. processCsvToAba today rows = Inr doc"
  then obtain doc where doc: "processCsvToAba today rows = Inr doc" ..
  from processCsvToAba_shape [OF doc] obtain h t where
    h: "generate_descriptive_record today = Inr h" and
    t: "generate_file_total_record (h # map fst (accepted rows))
          (running_total (map snd (accepted rows))) = Inr t"
    by blast
  from doc h have "\<exists>res. process_rows rows [h] (Num 0) = Inr res"
    by (auto simp: processCsvToAba_def aba_records_def split: sum.splits)
  then have "\<forall>row\<in>set rows. \<forall>e. generate_detail_record row \<noteq> Inl e"
    by (simp only: process_rows_returns_iff)
  with h t show "\<exists>h t. generate_descriptive_record today = Inr h
         \<and> (\<forall>row\<in>set rows. \<forall>e. generate_detail_record row \<noteq> Inl e)
         \<and> generate_file_total_record (h # map fst (accepted rows))
               (running_total (map snd (accepted rows))) = Inr t"
    by blast
next
  assume "\<exists>h t. generate_descriptive_record today = Inr h
         \<and> (\<forall>row\<in>set rows. \<forall>e. generate_detail_record row \<noteq> Inl e)
         \<and> generate_file_total_record (h # map fst (accepted rows))
               (running_total (map snd (accepted rows))) = Inr t"
  then obtain h t where
    h: "generate_descriptive_record today = Inr h" and
    n: "\<forall>row\<in>set rows. \<forall>e. generate_detail_record row \<noteq> Inl e" and
    t: "generate_file_total_record (h # map fst (accepted rows))
          (running_total (map snd (accepted rows))) = Inr t"
    by blast
  from n have "\<exists>res. process_rows rows [h] (Num 0) = Inr res"
    by (simp only: process_rows_returns_iff)
  then obtain aba tot where p: "process_rows rows [h] (Num 0) = Inr (aba, tot)" by auto
  from process_rows_accepted [OF p]
  have "aba = h # map fst (accepted rows)" "tot = running_total (map snd (accepted rows))"
    by (simp_all add: running_total_def)
  with t have "generate_file_total_record aba tot = Inr t" by simp
  from processCsvToAba_eval [OF aba_records_eval [OF h p this]]
  show "\<exists>doc. processCsvToAba today rows = Inr doc" by blast
qed

text \<open>
  Claim C7, as amended. \<open>processCsvToAba\<close> assembles a document exactly when the
  descriptive record is returned, no row makes \<open>generate_detail_record\<close> throw, and the
  trailer is returned; otherwise the conversion ends with the assertion's error. An
  assembled document is the descriptive record, then the records of the accepted rows in
  input order, then the trailer: each record has 120 characters and is followed by one
  newline character, so that record \<open>i\<close> (counted from 0) occupies the positions
  \<open>121 * i\<close> to \<open>121 * i + 119\<close>, position \<open>121 * i + 120\<close> holds a newline, and the
  document ends with the newline after the trailer. With no accepted row the document
  is the descriptive record and the trailer \<open>zero_trailer\<close>, whose count is \<open>000000\<close> and
  whose totals are \<open>0000000000\<close>; it is assembled for every table all of whose rows are
  skipped, the empty table among them.
\<close>

theorem document_layout:
  "(processCsvToAba today rows = Inr doc \<longrightarrow>
      (\<exists>h t. generate_descriptive_record today = Inr h
           \<and> generate_file_total_record (h # map fst (accepted rows))
                 (running_total (map snd (accepted rows))) = Inr t
           \<and> length h = 120 \<and> length t = 120
           \<and> (\<forall>d\<in>set (map fst (accepted rows)). length d = 120)
           \<and> doc = join [NEWLINE] (h # map fst (accepted rows) @ [t]) @ [NEWLINE]
           \<and> doc = concat (map (\<lambda>r. r @ [NEWLINE]) (h # map fst (accepted rows) @ [t]))
           \<and> length doc = 121 * (length (accepted rows) + 2)
           \<and> (\<forall>i < length (accepted rows) + 2.
                 take 120 (drop (121 * i) doc) = (h # map fst (accepted rows) @ [t]) ! i
                 \<and> doc ! (121 * i + 120) = NEWLINE)
           \<and> (accepted rows = [] \<longrightarrow> doc = h @ [NEWLINE] @ zero_trailer @ [NEWLINE])))
   \<and> ((\<exists>d. processCsvToAba today rows = Inr d)
        \<longleftrightarrow> (\<exists>h t. generate_descriptive_record today = Inr h
              \<and> (\<forall>row\<in>set rows. \<forall>e. generate_detail_record row \<noteq> Inl e)
              \<and> generate_file_total_record (h # map fst (accepted rows))
                    (running_total (map snd (accepted rows))) = Inr t))
   \<and> (generate_descriptive_record today = Inr h'
        \<and> (\<forall>row\<in>set rows. list_ex (blank row) CSV_COLUMNS) \<longrightarrow>
      accepted rows = []
      \<and> processCsvToAba today rows = Inr (h' @ [NEWLINE] @ zero_trailer @ [NEWLINE]))
   \<and> field 74 80 zero_trailer = ''000000''
   \<and> field 20 30 zero_trailer = ''0000000000''
   \<and> field 30 40 zero_trailer = ''0000000000''"
proof (intro conjI impI)
  assume a: "processCsvToAba today rows = Inr doc"
  from processCsvToAba_shape [OF a] obtain h t where
    h: "generate_descriptive_record today = Inr h" and
    t: "generate_file_total_record (h # map fst (accepted rows))
          (running_total (map snd (accepted rows))) = Inr t" and
    d: "doc = join [NEWLINE] (h # map fst (accepted rows) @ [t]) @ [NEWLINE]"
    by blast
  let ?recs = "h # map fst (accepted rows) @ [t]"
  have lh: "length h = 120" using h by (rule descriptive_record_shape)
  have lt: "length t = 120" using t by (rule file_total_record_shape(1))
  have ld: "\<forall>d\<in>set (map fst (accepted rows)). length d = 120"
    by (auto dest: accepted_length)
  from lh lt ld have all: "\<forall>r\<in>set ?recs. length r = 120" by simp
  have n: "length ?recs = length (accepted rows) + 2" by simp
  have c: "doc = concat (map (\<lambda>r. r @ [NEWLINE]) ?recs)"
    unfolding d by (rule join_terminated) simp
  have ll: "length doc = 121 * (length (accepted rows) + 2)"
    unfolding c using length_lines [OF all] by (simp only: n)
  have at: "\<forall>i < length (accepted rows) + 2.
                 take 120 (drop (121 * i) doc) = ?recs ! i \<and> doc ! (121 * i + 120) = NEWLINE"
  proof (intro allI impI)
    fix i assume "i < length (accepted rows) + 2"
    then have "i < length ?recs" by (simp only: n)
    from lines_at [OF all this]
    show "take 120 (drop (121 * i) doc) = ?recs ! i \<and> doc ! (121 * i + 120) = NEWLINE"
      by (simp only: c)
  qed
  have z: "doc = h @ [NEWLINE] @ zero_trailer @ [NEWLINE]" if e: "accepted rows = []"
  proof -
    from t e have "t = zero_trailer"
      by (simp add: running_total_def zero_trailer_eval)
    with d e show ?thesis by simp
  qed
  show "\<exists>h t. generate_descriptive_record today = Inr h
           \<and> generate_file_total_record (h # map fst (accepted rows))
                 (running_total (map snd (accepted rows))) = Inr t
           \<and> length h = 120 \<and> length t = 120
           \<and> (\<forall>d\<in>set (map fst (accepted rows)). length d = 120)
           \<and> doc = join [NEWLINE] (h # map fst (accepted rows) @ [t]) @ [NEWLINE]
           \<and> doc = concat (map (\<lambda>r. r @ [NEWLINE]) (h # map fst (accepted rows) @ [t]))
           \<and> length doc = 121 * (length (accepted rows) + 2)
           \<and> (\<forall>i < length (accepted rows) + 2.
                 take 120 (drop (121 * i) doc) = (h # map fst (accepted rows) @ [t]) ! i
                 \<and> doc ! (121 * i + 120) = NEWLINE)
           \<and> (accepted rows = [] \<longrightarrow> doc = h @ [NEWLINE] @ zero_trailer @ [NEWLINE])"
    by (rule exI [of _ h], rule exI [of _ t]) (use h t lh lt ld d c ll at z in blast)
next
  show "(\<exists>d. processCsvToAba today rows = Inr d)
        \<longleftrightarrow> (\<exists>h t. generate_descriptive_record today = Inr h
              \<and> (\<forall>row\<in>set rows. \<forall>e. generate_detail_record row \<noteq> Inl e)
              \<and> generate_file_total_record (h # map fst (accepted rows))
                    (running_total (map snd (accepted rows))) = Inr t)"
    by (rule processCsvToAba_returns_iff)
next
  assume "generate_descriptive_record today = Inr h'
        \<and> (\<forall>row\<in>set rows. list_ex (blank row) CSV_COLUMNS)"
  then show "accepted rows = []"
    by (simp add: accepted_all_blank)
next
  assume "generate_descriptive_record today = Inr h'
        \<and> (\<forall>row\<in>set rows. list_ex (blank row) CSV_COLUMNS)"
  then show "processCsvToAba today rows = Inr (h' @ [NEWLINE] @ zero_trailer @ [NEWLINE])"
    by (simp add: all_blank_document)
next
  show "field 74 80 zero_trailer = ''000000''" by code_simp
  show "field 20 30 zero_trailer = ''0000000000''" by code_simp
  show "field 30 40 zero_trailer = ''0000000000''" by code_simp
qed

theorem document_layout_witness:
  "processCsvToAba today0 [row_smith, row_empty] = Inr doc_smith
   \<and> doc_smith = header0 @ [NEWLINE] @ detail_smith @ [NEWLINE] @ trailer_smith @ [NEWLINE]
   \<and> accepted [row_smith, row_empty] = [(detail_smith, Num 1200)]
   \<and> (\<exists>h t. generate_descriptive_record today0 = Inr h
         \<and> generate_file_total_record (h # map fst (accepted [row_smith, row_empty]))
               (running_total (map snd (accepted [row_smith, row_empty]))) = Inr t
         \<and> length h = 120 \<and> length t = 120
         \<and> doc_smith
            = concat (map (\<lambda>r. r @ [NEWLINE]) (h # map fst (accepted [row_smith, row_empty]) @ [t]))
         \<and> take 120 (drop (121 * 1) doc_smith)
            = (h # map fst (accepted [row_smith, row_empty]) @ [t]) ! 1
         \<and> doc_smith ! (121 * 1 + 120) = NEWLINE)
   \<and> take 120 (drop 121 doc_smith) = detail_smith
   \<and> length doc_smith = 363
   \<and> generate_descriptive_record today0 = Inr header0
   \<and> list_all (\<lambda>row. list_ex (blank row) CSV_COLUMNS) [row_empty, row_blank_name]
   \<and> processCsvToAba today0 [row_empty, row_blank_name]
       = Inr (header0 @ [NEWLINE] @ zero_trailer @ [NEWLINE])
   \<and> processCsvToAba today0 [] = Inr (header0 @ [NEWLINE] @ zero_trailer @ [NEWLINE])"
proof -
  let ?rows = "[row_smith, row_empty]"
  have doc: "processCsvToAba today0 ?rows = Inr doc_smith"
    by code_simp
  have acc: "accepted ?rows = [(detail_smith, Num 1200)]"
    by code_simp
  have len: "length (accepted ?rows) = 1" by (simp add: acc)
  have b: "\<forall>row\<in>set [row_empty, row_blank_name]. list_ex (blank row) CSV_COLUMNS"
    by code_simp
  note w1 = document_layout [of today0 ?rows doc_smith header0]
  note w2 = document_layout [of today0 "[row_empty, row_blank_name]" "[]" header0]
  note w3 = document_layout [of today0 "[]" "[]" header0]
  from w1 doc obtain h t where
    h: "generate_descriptive_record today0 = Inr h" and
    t: "generate_file_total_record (h # map fst (accepted ?rows))
               (running_total (map snd (accepted ?rows))) = Inr t" and
    l: "length h = 120" "length t = 120" and
    c: "doc_smith = concat (map (\<lambda>r. r @ [NEWLINE]) (h # map fst (accepted ?rows) @ [t]))" and
    ll: "length doc_smith = 121 * (length (accepted ?rows) + 2)" and
    at: "\<forall>i < length (accepted ?rows) + 2.
           take 120 (drop (121 * i) doc_smith) = (h # map fst (accepted ?rows) @ [t]) ! i
           \<and> doc_smith ! (121 * i + 120) = NEWLINE"
    by blast
  have "(1::nat) < length (accepted ?rows) + 2" by (simp add: len)
  from at [rule_format, OF this]
  have at1: "take 120 (drop (121 * 1) doc_smith) = (h # map fst (accepted ?rows) @ [t]) ! 1
           \<and> doc_smith ! (121 * 1 + 120) = NEWLINE" .
  have "(h # map fst (accepted ?rows) @ [t]) ! 1 = detail_smith"
    by (simp add: acc)
  with at1 have second: "take 120 (drop 121 doc_smith) = detail_smith" by simp
  from ll have l363: "length doc_smith = 363" by (simp add: len)
  from h t l c at1 have ex: "\<exists>h t. generate_descriptive_record today0 = Inr h
         \<and> generate_file_total_record (h # map fst (accepted ?rows))
               (running_total (map snd (accepted ?rows))) = Inr t
         \<and> length h = 120 \<and> length t = 120
         \<and> doc_smith = concat (map (\<lambda>r. r @ [NEWLINE]) (h # map fst (accepted ?rows) @ [t]))
         \<and> take 120 (drop (121 * 1) doc_smith) = (h # map fst (accepted ?rows) @ [t]) ! 1
         \<and> doc_smith ! (121 * 1 + 120) = NEWLINE"
    by blast
  from w2 header0_eval b
  have d2: "processCsvToAba today0 [row_empty, row_blank_name]
       = Inr (header0 @ [NEWLINE] @ zero_trailer @ [NEWLINE])"
    by blast
  from w3 header0_eval
  have d3: "processCsvToAba today0 [] = Inr (header0 @ [NEWLINE] @ zero_trailer @ [NEWLINE])"
    by simp
  have la: "list_all (\<lambda>row. list_ex (blank row) CSV_COLUMNS) [row_empty, row_blank_name]"
    using b by simp
  from doc doc_smith_def acc ex second l363 header0_eval la d2 d3 show ?thesis by blast
qed

text \<open>
  Claim C7 as stated fails on the table whose only row is \<open>row_short_bsb\<close>, a valid row
  with the BSB \<open>1\<close>: no row is accepted, and no document is assembled, since the
  length assertion of \<open>generate_detail_record\<close> ends the conversion.
\<close>

theorem document_layout_counterexample:
  "generate_detail_record row_short_bsb = Inl (Detail_length 108)
   \<and> accepted [row_short_bsb] = []
   \<and> processCsvToAba today0 [row_short_bsb] = Inl (Detail_length 108)
   \<and> processCsvToAba today0 [row_smith, row_short_bsb] = Inl (Detail_length 108)"
  by code_simp

subsection \<open>A valid row is encoded or rejected by the assertion\<close>

lemma detail_record_dichotomy:
  assumes "\<not> list_ex (blank row) CSV_COLUMNS"
  shows "(\<exists>r a. generate_detail_record row = Inr (Some r, Some a) \<and> length r = 120)
       \<or> (\<exists>n. n \<noteq> 120 \<and> generate_detail_record row = Inl (Detail_length n))"
  using assms by (simp add: generate_detail_record_def Let_def LINE_LENGTH_def)

lemma detail_record_returns:
  assumes "\<not> list_ex (blank row) CSV_COLUMNS"
    and "length (trim (column row ''BSB'')) = 7"
    and "length (trim (column row ''Account'')) \<le> 9"
    and "length (trim (column row ''Name'')) \<le> 32"
    and "length (trim (column row ''Reference'')) \<le> 18"
    and "length (js_String (amount_in_cents_of (column row ''Amount''))) \<le> 10"
  shows "\<exists>r. generate_detail_record row
              = Inr (Some r, Some (amount_in_cents_of (column row ''Amount'')))
             \<and> length r = 120"
  using assms
  by (simp add: generate_detail_record_def Let_def LINE_LENGTH_def
      length_padStart length_padEnd length_repeat)

text \<open>
  Claim C4, as amended. For a valid row (no column missing or blank)
  \<open>generate_detail_record\<close> returns a record of exactly 120 characters or throws the
  length assertion; it never returns a record of another length. It returns the record
  whenever the trimmed BSB has 7 characters, the account at most 9, the name at most 32,
  the reference at most 18 and \<open>String(amount_in_cents)\<close> at most 10.
\<close>

theorem detail_record_length:
  assumes "\<not> list_ex (blank row) CSV_COLUMNS"
  shows "((\<exists>r a. generate_detail_record row = Inr (Some r, Some a) \<and> length r = 120)
          \<or> (\<exists>n. n \<noteq> 120 \<and> generate_detail_record row = Inl (Detail_length n)))
       \<and> (length (trim (column row ''BSB'')) = 7
          \<and> length (trim (column row ''Account'')) \<le> 9
          \<and> length (trim (column row ''Name'')) \<le> 32
          \<and> length (trim (column row ''Reference'')) \<le> 18
          \<and> length (js_String (amount_in_cents_of (column row ''Amount''))) \<le> 10
          \<longrightarrow> (\<exists>r. generate_detail_record row
                     = Inr (Some r, Some (amount_in_cents_of (column row ''Amount'')))
                    \<and> length r = 120))"
  using detail_record_dichotomy [OF assms] detail_record_returns [OF assms] by blast

theorem detail_record_length_witness:
  "\<not> list_ex (blank row_smith) CSV_COLUMNS
   \<and> length (trim (column row_smith ''BSB'')) = 7
   \<and> length (trim (column row_smith ''Account'')) \<le> 9
   \<and> length (trim (column row_smith ''Name'')) \<le> 32
   \<and> length (trim (column row_smith ''Reference'')) \<le> 18
   \<and> length (js_String (amount_in_cents_of (column row_smith ''Amount''))) \<le> 10
   \<and> (\<exists>r. generate_detail_record row_smith
              = Inr (Some r, Some (amount_in_cents_of (column row_smith ''Amount'')))
             \<and> length r = 120)"
proof -
  have v: "\<not> list_ex (blank row_smith) CSV_COLUMNS" by code_simp
  have w: "length (trim (column row_smith ''BSB'')) = 7
   \<and> length (trim (column row_smith ''Account'')) \<le> 9
   \<and> length (trim (column row_smith ''Name'')) \<le> 32
   \<and> length (trim (column row_smith ''Reference'')) \<le> 18
   \<and> length (js_String (amount_in_cents_of (column row_smith ''Amount''))) \<le> 10"
    by code_simp
  from detail_record_length [OF v] v w show ?thesis by blast
qed

text \<open>
  Claim C4 as stated fails on a valid row whose BSB is the one character \<open>1\<close>: the
  assembled record has 108 characters and the assertion throws.
\<close>

theorem detail_record_length_counterexample:
  "\<not> list_ex (blank row_short_bsb) CSV_COLUMNS
   \<and> generate_detail_record row_short_bsb = Inl (Detail_length 108)"
  by code_simp

text \<open>
  Claim C9, as amended. \<open>generate_detail_record\<close> returns \<open>[null, null]\<close> exactly for the
  rows with a missing or blank column, and never a record without an amount or an amount
  without a record. A record is returned only for a valid row, with the amount computed
  from the row's \<open>Amount\<close>; a valid row yields a record and an amount or the assertion's
  error. When a record is returned and the trimmed BSB has 7 characters and the account at
  most 9, characters 21 to 30 of the record are \<open>String(amount).padStart(10, '0')\<close> for the
  amount returned.
\<close>

theorem detail_record_presence_and_amount:
  "(generate_detail_record row = Inr (None, None) \<longleftrightarrow> list_ex (blank row) CSV_COLUMNS)
   \<and> (generate_detail_record row = Inr (x, y) \<longrightarrow>
        (x = None \<and> y = None) \<or> (x \<noteq> None \<and> y \<noteq> None))
   \<and> (generate_detail_record row = Inr (Some r, Some a) \<longrightarrow>
        \<not> list_ex (blank row) CSV_COLUMNS
        \<and> a = amount_in_cents_of (column row ''Amount'') \<and> length r = 120)
   \<and> (\<not> list_ex (blank row) CSV_COLUMNS \<longrightarrow>
        (\<exists>r' a'. generate_detail_record row = Inr (Some r', Some a'))
        \<or> (\<exists>n. n \<noteq> 120 \<and> generate_detail_record row = Inl (Detail_length n)))
   \<and> (generate_detail_record row = Inr (Some r, Some a)
        \<and> length (trim (column row ''BSB'')) = 7
        \<and> length (trim (column row ''Account'')) \<le> 9 \<longrightarrow>
        field 20 30 r = padStart 10 ZERO (js_String a) \<and> length (js_String a) \<le> 10)"
proof (intro conjI impI)
  show "generate_detail_record row = Inr (None, None) \<longleftrightarrow> list_ex (blank row) CSV_COLUMNS"
    by (rule detail_record_skip)
  show "(x = None \<and> y = None) \<or> (x \<noteq> None \<and> y \<noteq> None)"
    if "generate_detail_record row = Inr (x, y)"
    using that by (rule detail_record_results)
  show "\<not> list_ex (blank row) CSV_COLUMNS"
    and "a = amount_in_cents_of (column row ''Amount'')" and "length r = 120"
    if "generate_detail_record row = Inr (Some r, Some a)"
    using detail_record_shape(1,2,3) [OF that] by blast+
  show "(\<exists>r' a'. generate_detail_record row = Inr (Some r', Some a'))
        \<or> (\<exists>n. n \<noteq> 120 \<and> generate_detail_record row = Inl (Detail_length n))"
    if "\<not> list_ex (blank row) CSV_COLUMNS"
    using detail_record_dichotomy [OF that] by blast
  show "field 20 30 r = padStart 10 ZERO (js_String a)" and "length (js_String a) \<le> 10"
    if "generate_detail_record row = Inr (Some r, Some a)
        \<and> length (trim (column row ''BSB'')) = 7
        \<and> length (trim (column row ''Account'')) \<le> 9"
    using detail_amount_field [of row r a] that by blast+
qed

theorem detail_record_presence_and_amount_witness:
  "generate_detail_record row_smith = Inr (Some detail_smith, Some (Num 1200))
   \<and> length (trim (column row_smith ''BSB'')) = 7
   \<and> length (trim (column row_smith ''Account'')) \<le> 9
   \<and> \<not> list_ex (blank row_smith) CSV_COLUMNS
   \<and> Num 1200 = amount_in_cents_of (column row_smith ''Amount'')
   \<and> field 20 30 detail_smith = padStart 10 ZERO (js_String (Num 1200))
   \<and> field 20 30 detail_smith = ''0000001200''
   \<and> list_ex (blank row_empty) CSV_COLUMNS
   \<and> generate_detail_record row_empty = Inr (None, None)"
proof -
  have w: "length (trim (column row_smith ''BSB'')) = 7
           \<and> length (trim (column row_smith ''Account'')) \<le> 9"
    by code_simp
  have b: "list_ex (blank row_empty) CSV_COLUMNS" by code_simp
  have f: "field 20 30 detail_smith = ''0000001200''" by code_simp
  note t1 = detail_record_presence_and_amount
      [of row_smith "Some detail_smith" "Some (Num 1200)" detail_smith "Num 1200"]
  note t2 = detail_record_presence_and_amount [of row_empty None None "[]" NaN]
  from t1 t2 detail_smith_eval w b f show ?thesis by blast
qed

text \<open>
  Claim C9 as stated fails twice. The row \<open>row_shifted\<close>, with a BSB of six characters and
  a name of 34, passes the length assertion with its amount field one position to the
  left: characters 21 to 30 read \<open>000001200M\<close> while the amount returned is 1200. The valid
  row \<open>row_long_name\<close>, with a name of 33 characters, returns no values: the assertion
  throws.
\<close>

theorem detail_record_presence_and_amount_counterexample:
  "generate_detail_record row_shifted = Inr (Some detail_shifted, Some (Num 1200))
   \<and> field 20 30 detail_shifted = ''000001200M''
   \<and> padStart 10 ZERO (js_String (Num 1200)) = ''0000001200''
   \<and> \<not> list_ex (blank row_long_name) CSV_COLUMNS
   \<and> generate_detail_record row_long_name = Inl (Detail_length 121)"
  by code_simp

text \<open>
  Claim C5 fails on the code: \<open>replace(',', '')\<close> removes the first comma only. For the
  amount \<open>$1,234,567.89\<close> the string parsed is \<open>1234,567.89\<close>, \<open>parseFloat\<close> stops at the
  comma and reads 1234, and the row is encoded with 123400 cents instead of 123456789.
\<close>

theorem amount_with_two_commas:
  "replace_first CHR '','' (replace_first CHR ''$'' ''$1,234,567.89'') = ''1234,567.89''
   \<and> parseFloat ''1234,567.89'' = Num 1234
   \<and> amount_in_cents_of ''$1,234,567.89'' = Num 123400
   \<and> generate_detail_record row_million = Inr (Some detail_million, Some (Num 123400))
   \<and> field 20 30 detail_million = ''0000123400''"
  by code_simp

text \<open>
  Claim C6. The amount \<open>$1,234.56\<close> is 123456 cents, printed in ten characters as
  \<open>0000123456\<close>. Every record returned for a row with this amount comes with the amount
  123456, and when the trimmed BSB has 7 characters and the account at most 9, as in the
  row of the example, its characters 21 to 30 are \<open>0000123456\<close>.
\<close>

theorem amount_1234_56:
  "amount_in_cents_of ''$1,234.56'' = Num 123456
   \<and> padStart 10 ZERO (js_String (Num 123456)) = ''0000123456''
   \<and> generate_detail_record row_1234 = Inr (Some detail_1234, Some (Num 123456))
   \<and> field 20 30 detail_1234 = ''0000123456''
   \<and> (row ''Amount'' = Some ''$1,234.56'' \<and> generate_detail_record row = Inr (Some r, Some a)
        \<longrightarrow> a = Num 123456)
   \<and> (row ''Amount'' = Some ''$1,234.56'' \<and> generate_detail_record row = Inr (Some r, Some a)
        \<and> length (trim (column row ''BSB'')) = 7 \<and> length (trim (column row ''Account'')) \<le> 9
        \<longrightarrow> field 20 30 r = ''0000123456'')"
proof -
  have p: "padStart 10 ZERO (js_String (Num 123456)) = ''0000123456''" by code_simp
  have f: "field 20 30 detail_1234 = ''0000123456''" by code_simp
  have a: "a = Num 123456"
    if "row ''Amount'' = Some ''$1,234.56''" "generate_detail_record row = Inr (Some r, Some a)"
  proof -
    from that(1) have "column row ''Amount'' = ''$1,234.56''" by (simp add: column_def)
    with detail_record_shape(2) [OF that(2)] show ?thesis by (simp only: amount_1234)
  qed
  have "field 20 30 r = ''0000123456''"
    if "row ''Amount'' = Some ''$1,234.56''" "generate_detail_record row = Inr (Some r, Some a)"
      "length (trim (column row ''BSB'')) = 7" "length (trim (column row ''Account'')) \<le> 9"
    using detail_amount_field(1) [OF that(2,3,4)] a [OF that(1,2)] p by simp
  with a p f amount_1234 detail_1234_eval show ?thesis by blast
qed

theorem amount_1234_56_witness:
  "row_1234 ''Amount'' = Some ''$1,234.56''
   \<and> generate_detail_record row_1234 = Inr (Some detail_1234, Some (Num 123456))
   \<and> length (trim (column row_1234 ''BSB'')) = 7
   \<and> length (trim (column row_1234 ''Account'')) \<le> 9
   \<and> field 20 30 detail_1234 = ''0000123456''"
proof -
  have w: "row_1234 ''Amount'' = Some ''$1,234.56''
           \<and> length (trim (column row_1234 ''BSB'')) = 7
           \<and> length (trim (column row_1234 ''Account'')) \<le> 9"
    by code_simp
  from amount_1234_56 [of row_1234 detail_1234 "Num 123456"] w show ?thesis by blast
qed

text \<open>
  Claim C10. The row \<open>row_abc\<close> has five non-blank columns and the amount \<open>abc\<close>. It is
  neither skipped nor rejected: \<open>generate_detail_record\<close> returns a record of 120
  characters whose characters 21 to 30 are \<open>0000000NaN\<close>, with the amount \<open>NaN\<close>. Adding
  \<open>NaN\<close> makes the running total \<open>NaN\<close>, and in the document of a table with this row both
  totals of the trailer read \<open>0000000NaN\<close>.
\<close>

theorem non_numeric_amount:
  "list_all (\<lambda>col. \<exists>v. row_abc col = Some v \<and> trim v \<noteq> []) CSV_COLUMNS
   \<and> column row_abc ''Amount'' = ''abc''
   \<and> amount_in_cents_of ''abc'' = NaN
   \<and> generate_detail_record row_abc = Inr (Some detail_abc, Some NaN)
   \<and> length detail_abc = 120
   \<and> field 20 30 detail_abc = ''0000000NaN''
   \<and> js_add (Num 1200) NaN = NaN
   \<and> running_total (map snd (accepted [row_smith, row_abc])) = NaN
   \<and> processCsvToAba today0 [row_smith, row_abc]
        = Inr (join [NEWLINE] [header0, detail_smith, detail_abc, trailer_nan] @ [NEWLINE])
   \<and> field 20 30 trailer_nan = ''0000000NaN''
   \<and> field 30 40 trailer_nan = ''0000000NaN''"
proof -
  have v: "list_all (\<lambda>col. \<exists>v. row_abc col = Some v \<and> trim v \<noteq> []) CSV_COLUMNS"
    by (simp add: CSV_COLUMNS_def row_abc_def make_row_def trim_def js_whitespace_def)
  have rest: "column row_abc ''Amount'' = ''abc''
   \<and> amount_in_cents_of ''abc'' = NaN
   \<and> generate_detail_record row_abc = Inr (Some detail_abc, Some NaN)
   \<and> length detail_abc = 120
   \<and> field 20 30 detail_abc = ''0000000NaN''
   \<and> js_add (Num 1200) NaN = NaN
   \<and> running_total (map snd (accepted [row_smith, row_abc])) = NaN
   \<and> processCsvToAba today0 [row_smith, row_abc]
        = Inr (join [NEWLINE] [header0, detail_smith, detail_abc, trailer_nan] @ [NEWLINE])
   \<and> field 20 30 trailer_nan = ''0000000NaN''
   \<and> field 30 40 trailer_nan = ''0000000NaN''"
    by code_simp
  from v rest show ?thesis by blast
qed

subsection \<open>Totals and counts that fit their fields\<close>

lemma file_total_record_in_range:
  assumes "aba \<noteq> []" "length aba \<le> 10 ^ 6" "0 \<le> n" "n < 10 ^ 10"
  shows "\<exists>t. generate_file_total_record aba (Num (of_int n)) = Inr t \<and> length t = 120"
proof (rule file_total_record_returns)
  from assms(3,4) have "n \<le> 2 ^ 53" by simp
  with assms(3) have "js_String (Num (of_int n)) = show_digits n" by (rule js_String_of_int)
  moreover have "length (show_digits n) \<le> 10"
    using assms(4) by (intro length_show_digits_le) simp_all
  ultimately show "length (js_String (Num (rat_of_int n))) \<le> 10" by simp
  from assms(1) have c0: "0 \<le> int (length aba) - 1" by (cases aba) simp_all
  from assms(2) have "int (length aba) - 1 < 10 ^ 6" by simp
  then have "length (show_digits (int (length aba) - 1)) \<le> 6"
    by (intro length_show_digits_le) simp_all
  with c0 show "length (show_int (int (length aba) - 1)) \<le> 6" by (simp add: show_int_def)
qed

lemma file_total_record_too_long:
  assumes "10 < length (js_String tot) \<or> 6 < length (show_int (int (length aba) - 1))"
  shows "\<exists>n. n \<noteq> 120 \<and> generate_file_total_record aba tot = Inl (Trailer_length n)"
  using assms
  by (auto simp: generate_file_total_record_def Let_def LINE_LENGTH_def
      length_padStart length_repeat)

text \<open>
  Claim C8, as amended. \<open>generate_descriptive_record\<close> returns a record of exactly 120
  characters for every date with a day from 1 to 31, a month from 0 to 11 and a year of
  at least two digits, and never returns a record of another length.
  \<open>generate_file_total_record\<close> never returns a record of another length either: it
  returns a record of exactly 120 characters when the count is at most 999999 and the
  total is an integer from 0 to 9999999999, and it throws the length assertion when
  \<open>String(total_amount)\<close> has more than 10 characters or the count more than 6 digits.
\<close>

theorem record_lengths:
  "(1 \<le> getDate today \<and> getDate today \<le> 31 \<and> 0 \<le> getMonth today \<and> getMonth today \<le> 11
      \<and> 10 \<le> getFullYear today
      \<longrightarrow> (\<exists>h. generate_descriptive_record today = Inr h \<and> length h = 120))
   \<and> (generate_descriptive_record today = Inr h' \<longrightarrow> length h' = 120)
   \<and> (generate_file_total_record aba tot = Inr t' \<longrightarrow> length t' = 120)
   \<and> (aba \<noteq> [] \<and> length aba \<le> 10 ^ 6 \<and> 0 \<le> n \<and> n < 10 ^ 10
      \<longrightarrow> (\<exists>t. generate_file_total_record aba (Num (of_int n)) = Inr t \<and> length t = 120))
   \<and> (10 < length (js_String tot) \<or> 6 < length (show_int (int (length aba) - 1))
      \<longrightarrow> (\<exists>k. k \<noteq> 120 \<and> generate_file_total_record aba tot = Inl (Trailer_length k)))"
  using descriptive_record_returns [of today] descriptive_record_shape [of today h']
    file_total_record_shape(1) [of aba tot t'] file_total_record_in_range [of aba n]
    file_total_record_too_long [of tot aba]
  by blast

theorem record_lengths_witness:
  "1 \<le> getDate today0 \<and> getDate today0 \<le> 31 \<and> 0 \<le> getMonth today0 \<and> getMonth today0 \<le> 11
   \<and> 10 \<le> getFullYear today0
   \<and> generate_descriptive_record today0 = Inr header0 \<and> length header0 = 120
   \<and> [header0, detail_smith] \<noteq> [] \<and> length [header0, detail_smith] \<le> 10 ^ 6
   \<and> (0::int) \<le> 1200 \<and> (1200::int) < 10 ^ 10
   \<and> generate_file_total_record [header0, detail_smith] (Num (of_int 1200)) = Inr trailer_smith
   \<and> length trailer_smith = 120
   \<and> 10 < length (js_String (Num 10000000000))
   \<and> (\<exists>k. k \<noteq> 120
        \<and> generate_file_total_record [header0] (Num 10000000000) = Inl (Trailer_length k))"
proof -
  have d: "1 \<le> getDate today0 \<and> getDate today0 \<le> 31 \<and> 0 \<le> getMonth today0
      \<and> getMonth today0 \<le> 11 \<and> 10 \<le> getFullYear today0"
    by (simp add: today0_def)
  have tr: "generate_file_total_record [header0, detail_smith] (Num (of_int 1200))
            = Inr trailer_smith"
    by code_simp
  have big: "10 < length (js_String (Num 10000000000))" by code_simp
  note w1 = record_lengths [of today0 header0 "[header0, detail_smith]" "Num (of_int 1200)"
      trailer_smith 1200]
  note w2 = record_lengths [of today0 header0 "[header0]" "Num 10000000000" trailer_smith 0]
  from w1 header0_eval tr have "length header0 = 120" "length trailer_smith = 120" by blast+
  moreover from w2 big have "\<exists>k. k \<noteq> 120
        \<and> generate_file_total_record [header0] (Num 10000000000) = Inl (Trailer_length k)"
    by blast
  ultimately show ?thesis using d header0_eval tr big by simp
qed

text \<open>
  Claim C8 as stated fails for the count 0 and the total \<open>10 ^ 10\<close>, both non-negative:
  the total takes 11 characters, the record has 122 and the assertion throws.
\<close>

theorem record_lengths_counterexample:
  "generate_file_total_record [header0] (Num 10000000000) = Inl (Trailer_length 122)"
  by code_simp

end
